theory Spec2Isabelle
  imports Complex_Main "HOL-Library.AList" "HOL-Library.Multiset"
begin

section \<open>Numbers and vectors\<close>

text \<open>
  In the components, the TypeScript numbers that hold times, distances and input values
  are modelled as \<^typ>\<open>real\<close>; lap numbers, checkpoint indices and counts are modelled as
  \<^typ>\<open>int\<close>. A three.js \<open>Vector3\<close> is a triple of reals, a \<open>Quaternion\<close> a quadruple.
  The clock of the world is modelled in binary64 arithmetic, see the section on the numbers
  of the scheduler.
\<close>

datatype vec3 = Vector3 real real real

datatype quat = Quaternion real real real real

text \<open>\<open>Vector3.distanceTo\<close>: the Euclidean distance.\<close>

fun distanceTo :: "vec3 \<Rightarrow> vec3 \<Rightarrow> real" where
  "distanceTo (Vector3 ax ay az) (Vector3 bx by bz) =
     sqrt ((ax - bx) * (ax - bx) + (ay - by) * (ay - by) + (az - bz) * (az - bz))"

section \<open>VehicleComponent\<close>

record vehicleComponent =
  mass :: real
  maxEngineForce :: real
  maxBrakingForce :: real
  maxSteeringAngle :: real
  velocity :: vec3
  acceleration :: vec3
  steeringAngle :: real
  engineForce :: real
  brakingForce :: real
  wheelBase :: real
  trackWidth :: real
  drag :: real
  rollingResistance :: real
  throttleInput :: real
  brakeInput :: real
  steeringInput :: real

text \<open>A new \<open>VehicleComponent\<close>: the field initialisers of the class.\<close>

definition VehicleComponent :: vehicleComponent where
  "VehicleComponent =
     \<lparr>mass = 1500, maxEngineForce = 2000, maxBrakingForce = 100, maxSteeringAngle = 30,
      velocity = Vector3 0 0 0, acceleration = Vector3 0 0 0, steeringAngle = 0,
      engineForce = 0, brakingForce = 0, wheelBase = 2.5, trackWidth = 1.8, drag = 1.5,
      rollingResistance = 0.8, throttleInput = 0, brakeInput = 0, steeringInput = 0\<rparr>"

text \<open>\<open>VehicleComponent.setInputs\<close>: each channel goes through \<open>Math.max(lo, Math.min(hi, v))\<close>.\<close>

definition setInputs :: "real \<Rightarrow> real \<Rightarrow> real \<Rightarrow> vehicleComponent \<Rightarrow> vehicleComponent" where
  "setInputs throttle brake steering v =
     v\<lparr>throttleInput := max (-1) (min 1 throttle),
       brakeInput := max 0 (min 1 brake),
       steeringInput := max (-1) (min 1 steering)\<rparr>"

section \<open>TransformComponent\<close>

text \<open>
  The fields the simulation core reads and writes. The matrices are caches that
  \<open>updateMatrix\<close> recomputes from position, quaternion and scale; they are left out.
\<close>

record transformComponent =
  position :: vec3
  rotation :: vec3
  quaternion :: quat
  scale :: vec3

section \<open>CheckpointComponent\<close>

text \<open>\<open>passedTimestamps\<close> is the \<open>Map\<close> from vehicle entity id to the time of entry (the latch).\<close>

record checkpointComponent =
  index :: int
  isStartFinish :: bool
  radius :: real
  passedTimestamps :: "string \<rightharpoonup> real"

text \<open>
  \<open>checkVehiclePassing\<close>. The first argument is the position of the transform of the
  checkpoint's own entity, \<open>None\<close> when the component has no entity or the entity has no
  transform; \<open>now\<close> is the reading of \<open>performance.now()\<close>. The result is the returned
  boolean and the component after the call.
\<close>

definition checkVehiclePassing ::
    "vec3 option \<Rightarrow> real \<Rightarrow> string \<Rightarrow> vec3 \<Rightarrow> checkpointComponent \<Rightarrow> bool \<times> checkpointComponent" where
  "checkVehiclePassing transformPosition now vehicleEntityId vehiclePosition c =
     (case transformPosition of
        None \<Rightarrow> (False, c)
      | Some p \<Rightarrow>
          let distance = distanceTo p vehiclePosition in
          if distance \<le> radius c then
            (if passedTimestamps c vehicleEntityId = None
             then (True, c\<lparr>passedTimestamps := (passedTimestamps c)(vehicleEntityId \<mapsto> now)\<rparr>)
             else (False, c))
          else if distance > radius c * 1.5 then
            (False, c\<lparr>passedTimestamps := (passedTimestamps c)(vehicleEntityId := None)\<rparr>)
          else (False, c))"

definition resetForVehicle :: "string \<Rightarrow> checkpointComponent \<Rightarrow> checkpointComponent" where
  "resetForVehicle vehicleEntityId c =
     c\<lparr>passedTimestamps := (passedTimestamps c)(vehicleEntityId := None)\<rparr>"

definition resetAll :: "checkpointComponent \<Rightarrow> checkpointComponent" where
  "resetAll c = c\<lparr>passedTimestamps := Map.empty\<rparr>"

text \<open>
  A run of \<open>checkVehiclePassing\<close> calls on one checkpoint, one call per element
  (vehicle id, vehicle position, clock reading), in order; the booleans returned and the
  component after the last call.
\<close>

fun checkVehiclePassingRun ::
    "vec3 option \<Rightarrow> (string \<times> vec3 \<times> real) list \<Rightarrow> checkpointComponent
       \<Rightarrow> bool list \<times> checkpointComponent" where
  "checkVehiclePassingRun tp [] c = ([], c)"
| "checkVehiclePassingRun tp ((v, pos, now) # rest) c =
     (let (b, c') = checkVehiclePassing tp now v pos c;
          (bs, c'') = checkVehiclePassingRun tp rest c'
      in (b # bs, c''))"

section \<open>LapCounterComponent\<close>

text \<open>
  A \<open>Map<number, number>\<close> is an association list in insertion order: \<open>set\<close> is
  \<^const>\<open>AList.update\<close> (an existing key keeps its place), \<open>has\<close> is a lookup with
  \<^const>\<open>map_of\<close>, \<open>size\<close> is the length, \<open>clear\<close> gives the empty list.
\<close>

record lapData =
  lapNumber :: int
  startTime :: real
  endTime :: real
  duration :: real
  checkpointTimes :: "(int \<times> real) list"
  valid :: bool

record lapCounterComponent =
  currentLap :: int
  totalLaps :: int
  lapStartTime :: real
  isRacing :: bool
  currentCheckpoint :: int
  totalCheckpoints :: int
  checkpointPassing :: "(int \<times> real) list"
  lapHistory :: "lapData list"
  bestLapTime :: "real option"

definition LapCounterComponent :: "int \<Rightarrow> int \<Rightarrow> lapCounterComponent" where
  "LapCounterComponent laps cps =
     \<lparr>currentLap = 0, totalLaps = laps, lapStartTime = 0, isRacing = False,
      currentCheckpoint = 0, totalCheckpoints = cps, checkpointPassing = [],
      lapHistory = [], bestLapTime = None\<rparr>"

text \<open>\<open>startRace\<close>; \<open>now\<close> is the reading of \<open>performance.now()\<close>.\<close>

definition startRace :: "real \<Rightarrow> lapCounterComponent \<Rightarrow> lapCounterComponent" where
  "startRace now l =
     l\<lparr>isRacing := True, currentLap := 1, currentCheckpoint := 0, checkpointPassing := [],
       lapHistory := [], bestLapTime := None, lapStartTime := now\<rparr>"

definition finishRace :: "lapCounterComponent \<Rightarrow> lapCounterComponent" where
  "finishRace l = l\<lparr>isRacing := False\<rparr>"

text \<open>The loop of \<open>validateLap\<close>, from index \<open>i\<close> on.\<close>

function validateLapFrom :: "int \<Rightarrow> lapCounterComponent \<Rightarrow> bool" where
  "validateLapFrom i l =
     (if i < totalCheckpoints l
      then (if map_of (checkpointPassing l) i = None then False else validateLapFrom (i + 1) l)
      else True)"
  by pat_completeness auto
termination
  by (relation "measure (\<lambda>(i, l). nat (totalCheckpoints l - i))") auto

definition validateLap :: "lapCounterComponent \<Rightarrow> bool" where
  "validateLap l = validateLapFrom 0 l"

definition completeLap :: "real \<Rightarrow> lapCounterComponent \<Rightarrow> lapCounterComponent" where
  "completeLap timestamp l =
     (let lapTime = timestamp - lapStartTime l;
          lap = \<lparr>lapNumber = currentLap l, startTime = lapStartTime l, endTime = timestamp,
                 duration = lapTime, checkpointTimes = checkpointPassing l,
                 valid = validateLap l\<rparr>;
          l1 = l\<lparr>lapHistory := lapHistory l @ [lap]\<rparr>;
          l2 = (if valid lap \<and> (case bestLapTime l1 of None \<Rightarrow> True | Some best \<Rightarrow> lapTime < best)
                then l1\<lparr>bestLapTime := Some lapTime\<rparr> else l1);
          l3 = l2\<lparr>currentLap := currentLap l2 + 1\<rparr>
      in if currentLap l3 > totalLaps l3 then finishRace l3
         else l3\<lparr>lapStartTime := timestamp, currentCheckpoint := 0, checkpointPassing := []\<rparr>)"

text \<open>
  The remainder operator \<open>%\<close> on integers: the result has the sign of the dividend, and a
  zero divisor gives \<open>NaN\<close>, which is \<open>None\<close> here (it is equal to no number).
\<close>

definition js_rem :: "int \<Rightarrow> int \<Rightarrow> int option" where
  "js_rem a b = (if b = 0 then None else Some (sgn a * (\<bar>a\<bar> mod \<bar>b\<bar>)))"

definition passCheckpoint ::
    "int \<Rightarrow> real \<Rightarrow> lapCounterComponent \<Rightarrow> bool \<times> lapCounterComponent" where
  "passCheckpoint checkpointIndex timestamp l =
     (if \<not> isRacing l then (False, l)
      else
        let l1 = (if totalCheckpoints l = 0 then l\<lparr>totalCheckpoints := 5\<rparr> else l);
            expectedNext = js_rem (currentCheckpoint l1 + 1) (totalCheckpoints l1);
            isNextCheckpoint = (expectedNext = Some checkpointIndex);
            isStartFinishLine = (checkpointIndex = 0);
            l2 = l1\<lparr>checkpointPassing :=
                      AList.update checkpointIndex timestamp (checkpointPassing l1)\<rparr>
        in if isStartFinishLine \<and> currentCheckpoint l2 = totalCheckpoints l2 - 1
             then (True, completeLap timestamp l2)
           else if isNextCheckpoint
             then (True, l2\<lparr>currentCheckpoint := checkpointIndex\<rparr>)
           else if isStartFinishLine
                   \<and> int (length (checkpointPassing l2)) \<ge> totalCheckpoints l2 - 1
             then (True, completeLap timestamp l2)
           else (False,
                 if checkpointIndex > currentCheckpoint l2
                    \<or> (currentCheckpoint l2 = totalCheckpoints l2 - 1 \<and> checkpointIndex = 0)
                 then l2\<lparr>currentCheckpoint := checkpointIndex\<rparr> else l2))"

text \<open>
  Successive \<open>passCheckpoint\<close> calls, one per (index, timestamp) pair: the booleans
  returned and the component after the last call.
\<close>

fun passCheckpoints ::
    "(int \<times> real) list \<Rightarrow> lapCounterComponent \<Rightarrow> bool list \<times> lapCounterComponent" where
  "passCheckpoints [] l = ([], l)"
| "passCheckpoints ((i, t) # rest) l =
     (let (b, l') = passCheckpoint i t l;
          (bs, l'') = passCheckpoints rest l'
      in (b # bs, l''))"

section \<open>NetworkIdentityComponent\<close>

record networkIdentityComponent =
  networkId :: string
  ownerId :: string
  isOwner :: bool
  isLocalPlayer :: bool
  syncPosition :: bool
  syncRotation :: bool
  syncScale :: bool
  syncVelocity :: bool
  syncInterval :: real
  lastSyncTime :: real
  isDirty :: bool

definition markDirty :: "networkIdentityComponent \<Rightarrow> networkIdentityComponent" where
  "markDirty n = n\<lparr>isDirty := True\<rparr>"

text \<open>
  \<open>needsSync\<close> returns its boolean result together with the component as the call
  leaves it.
\<close>

definition needsSync ::
    "real \<Rightarrow> networkIdentityComponent \<Rightarrow> bool \<times> networkIdentityComponent" where
  "needsSync currentTime n =
     (if \<not> isOwner n then (False, n)
      else if isDirty n \<and> currentTime - lastSyncTime n \<ge> syncInterval n
        then (True, n\<lparr>isDirty := False, lastSyncTime := currentTime\<rparr>)
      else (False, n))"

section \<open>Entity and Component as objects\<close>

text \<open>
  Entities and components are objects that refer to each other: the entity's map holds
  its components and each component's \<open>entity\<close> field points back. Objects live in a
  store and are named by references. \<open>componentObj\<close> has the two fields of the base class
  \<open>Component\<close>; \<open>entityObj\<close> has the fields of \<open>Entity\<close>, its component \<open>Map\<close> being an
  association list from type tag to component reference.
\<close>

type_synonym ref = nat

record componentObj =
  ctype :: string
  entity :: "ref option"

record entityObj =
  obj_id :: string
  components :: "(string \<times> ref) list"
  tags :: "string set"

record store =
  componentObjs :: "ref \<rightharpoonup> componentObj"
  entityObjs :: "ref \<rightharpoonup> entityObj"

text \<open>
  \<open>Entity.addComponent\<close>: \<open>this.components.set(component.type, component)\<close>, then
  \<open>component.entity = this\<close>. A reference that names no object of the store cannot occur
  in the program; the model answers \<open>None\<close> for it.
\<close>

definition addComponent :: "ref \<Rightarrow> ref \<Rightarrow> store \<Rightarrow> store option" where
  "addComponent e c s =
     (case (entityObjs s e, componentObjs s c) of
        (Some eo, Some co) \<Rightarrow>
          Some (s\<lparr>entityObjs :=
                     (entityObjs s)(e \<mapsto> eo\<lparr>components := AList.update (ctype co) c (components eo)\<rparr>),
                   componentObjs := (componentObjs s)(c \<mapsto> co\<lparr>entity := Some e\<rparr>)\<rparr>)
      | _ \<Rightarrow> None)"

text \<open>
  \<open>Entity.removeComponent\<close>: when the type is present, the component found has its
  \<open>entity\<close> field set to \<open>null\<close> and the entry is deleted.
\<close>

definition removeComponent :: "ref \<Rightarrow> string \<Rightarrow> store \<Rightarrow> store option" where
  "removeComponent e componentType s =
     (case entityObjs s e of
        None \<Rightarrow> None
      | Some eo \<Rightarrow>
          (case map_of (components eo) componentType of
             None \<Rightarrow> Some s
           | Some c \<Rightarrow>
               Some (s\<lparr>componentObjs :=
                          (case componentObjs s c of
                             None \<Rightarrow> componentObjs s
                           | Some co \<Rightarrow> (componentObjs s)(c \<mapsto> co\<lparr>entity := None\<rparr>)),
                        entityObjs :=
                          (entityObjs s)(e \<mapsto> eo\<lparr>components :=
                             AList.delete componentType (components eo)\<rparr>)\<rparr>)))"

definition getComponent :: "ref \<Rightarrow> string \<Rightarrow> store \<Rightarrow> ref option" where
  "getComponent e componentType s =
     (case entityObjs s e of None \<Rightarrow> None | Some eo \<Rightarrow> map_of (components eo) componentType)"

definition getAllComponents :: "ref \<Rightarrow> store \<Rightarrow> ref list" where
  "getAllComponents e s =
     (case entityObjs s e of None \<Rightarrow> [] | Some eo \<Rightarrow> map snd (components eo))"

text \<open>The back-reference of a component object.\<close>

definition entityOf :: "ref \<Rightarrow> store \<Rightarrow> ref option" where
  "entityOf c s = (case componentObjs s c of None \<Rightarrow> None | Some co \<Rightarrow> entity co)"

section \<open>System\<close>

text \<open>
  The base class \<open>System\<close>: \<open>world\<close> is \<open>True\<close> when the field holds the world and
  \<open>False\<close> when it is \<open>null\<close>, its initial value. \<open>System.init\<close> stores the world.
\<close>

record system =
  world :: bool
  priority :: int

definition System_init :: "'a system_scheme \<Rightarrow> 'a system_scheme" where
  "System_init sys = sys\<lparr>world := True\<rparr>"

section \<open>The numbers of the scheduler\<close>

text \<open>
  \<open>World.update\<close> adds seconds to its accumulator, subtracts the fixed step from it and
  compares the two, so the number of fixed ticks depends on how each result is rounded.
  The numbers of the world are therefore IEEE 754 binary64 values, as in JavaScript: a
  finite value (given by the real number it denotes), the two infinities and NaN. The two
  zeros are one value here: the code of the world never divides by zero and never looks at
  the sign of a zero.
\<close>

datatype number = Finite real | PosInfinity | NegInfinity | NaN

text \<open>The number of binary digits of a natural number.\<close>

fun bitLength :: "nat \<Rightarrow> nat" where
  "bitLength n = (if n = 0 then 0 else Suc (bitLength (n div 2)))"

declare bitLength.simps [simp del]

text \<open>
  \<open>pow2 e\<close> is 2 to the power \<open>e\<close>; \<open>exponent x\<close> is, for a positive \<open>x\<close>, the \<open>e\<close> with
  \<open>pow2 e \<le> x < pow2 (e + 1)\<close>.
\<close>

definition pow2 :: "int \<Rightarrow> real" where
  "pow2 e = (if 0 \<le> e then 2 ^ nat e else 1 / 2 ^ nat (- e))"

definition exponent :: "real \<Rightarrow> int" where
  "exponent x =
     (if 1 \<le> x then int (bitLength (nat \<lfloor>x\<rfloor>)) - 1
      else - int (bitLength (nat \<lceil>1 / x\<rceil> - 1)))"

text \<open>Rounding to the nearest integer, a tie to the even one.\<close>

definition roundHalfEven :: "real \<Rightarrow> int" where
  "roundHalfEven y =
     (let f = \<lfloor>y\<rfloor>; d = y - of_int f
      in if d < 1/2 then f else if 1/2 < d then f + 1 else if even f then f else f + 1)"

text \<open>
  Rounding an exact result to binary64, to nearest and ties to even. A value has 53
  significant bits, so between \<open>pow2 e\<close> and \<open>pow2 (e + 1)\<close> the values are the multiples
  of \<open>pow2 (e - 52)\<close>; below \<open>pow2 (- 1022)\<close> the spacing stays \<open>pow2 (- 1074)\<close> (the
  subnormal values); a result that rounds to \<open>pow2 1024\<close> or beyond is an infinity.
\<close>

definition round64 :: "real \<Rightarrow> number" where
  "round64 x =
     (if x = 0 then Finite 0
      else
        let e = max (exponent \<bar>x\<bar>) (- 1022);
            ulp = pow2 (e - 52);
            r = of_int (roundHalfEven (x / ulp)) * ulp
        in if pow2 1024 \<le> r then PosInfinity
           else if r \<le> - pow2 1024 then NegInfinity
           else Finite r)"

text \<open>\<open>Number.MAX_VALUE\<close>, the largest finite number.\<close>

definition MAX_VALUE :: real where
  "MAX_VALUE = (2 ^ 53 - 1) * 2 ^ 971"

text \<open>The operators \<open>+\<close>, \<open>-\<close> and \<open>/\<close> on numbers. A zero divisor is read as \<open>+0\<close>.\<close>

fun num_add :: "number \<Rightarrow> number \<Rightarrow> number" where
  "num_add NaN _ = NaN"
| "num_add _ NaN = NaN"
| "num_add (Finite a) (Finite b) = round64 (a + b)"
| "num_add PosInfinity NegInfinity = NaN"
| "num_add NegInfinity PosInfinity = NaN"
| "num_add PosInfinity _ = PosInfinity"
| "num_add _ PosInfinity = PosInfinity"
| "num_add NegInfinity _ = NegInfinity"
| "num_add _ NegInfinity = NegInfinity"

fun num_sub :: "number \<Rightarrow> number \<Rightarrow> number" where
  "num_sub NaN _ = NaN"
| "num_sub _ NaN = NaN"
| "num_sub (Finite a) (Finite b) = round64 (a - b)"
| "num_sub PosInfinity PosInfinity = NaN"
| "num_sub NegInfinity NegInfinity = NaN"
| "num_sub PosInfinity _ = PosInfinity"
| "num_sub _ NegInfinity = PosInfinity"
| "num_sub NegInfinity _ = NegInfinity"
| "num_sub _ PosInfinity = NegInfinity"

fun num_div :: "number \<Rightarrow> number \<Rightarrow> number" where
  "num_div NaN _ = NaN"
| "num_div _ NaN = NaN"
| "num_div (Finite a) (Finite b) =
     (if b = 0 then (if a = 0 then NaN else if 0 < a then PosInfinity else NegInfinity)
      else round64 (a / b))"
| "num_div (Finite a) _ = Finite 0"
| "num_div PosInfinity (Finite b) = (if 0 \<le> b then PosInfinity else NegInfinity)"
| "num_div NegInfinity (Finite b) = (if 0 \<le> b then NegInfinity else PosInfinity)"
| "num_div _ _ = NaN"

text \<open>\<open>Math.min\<close> of two numbers, the comparison \<open>>=\<close> and the equality \<open>===\<close>.\<close>

fun Math_min :: "number \<Rightarrow> number \<Rightarrow> number" where
  "Math_min NaN _ = NaN"
| "Math_min _ NaN = NaN"
| "Math_min NegInfinity _ = NegInfinity"
| "Math_min _ NegInfinity = NegInfinity"
| "Math_min PosInfinity b = b"
| "Math_min a PosInfinity = a"
| "Math_min (Finite a) (Finite b) = Finite (min a b)"

fun num_ge :: "number \<Rightarrow> number \<Rightarrow> bool" where
  "num_ge NaN _ = False"
| "num_ge _ NaN = False"
| "num_ge PosInfinity _ = True"
| "num_ge _ NegInfinity = True"
| "num_ge (Finite a) (Finite b) = (b \<le> a)"
| "num_ge _ _ = False"

definition num_eq :: "number \<Rightarrow> number \<Rightarrow> bool" where
  "num_eq a b = (a \<noteq> NaN \<and> a = b)"

text \<open>The real number that a finite number denotes (0 for the others).\<close>

fun valueOf :: "number \<Rightarrow> real" where
  "valueOf (Finite r) = r"
| "valueOf _ = 0"

section \<open>World: the fixed-timestep scheduler\<close>

text \<open>
  The world keeps its entities (by id, in the order of the \<open>Map\<close>), its systems (by name,
  in priority order), the two queues and the three timing fields. What a system or a
  component does in its own \<open>update\<close>, \<open>fixedUpdate\<close> or \<open>onRemove\<close> is not the world's
  code: each such dispatch is recorded, in order, in \<open>calls\<close>. A \<open>Component\<close> call stands
  for the inner loop over all components of the named entity. \<open>fixedTicks\<close> is not a
  field of the class either: it counts how often the body of the fixed-step loop has run.
\<close>

datatype call =
    SystemFixedUpdate string number
  | ComponentFixedUpdate string number
  | SystemUpdate string number
  | ComponentUpdate string number
  | ComponentOnRemove string

record world =
  entities :: "string list"
  systems :: "(string \<times> int) list"
  entitiesToAdd :: "string list"
  entitiesToRemove :: "string list"
  lastFixedUpdateTime :: number
  fixedTimeStep :: number
  accumulator :: number
  calls :: "call list"
  fixedTicks :: nat

definition World :: "number \<Rightarrow> world" where
  "World step =
     \<lparr>entities = [], systems = [], entitiesToAdd = [], entitiesToRemove = [],
      lastFixedUpdateTime = Finite 0, fixedTimeStep = step, accumulator = Finite 0, calls = [],
      fixedTicks = 0\<rparr>"

text \<open>
  The value of the expression \<open>1/60\<close>: the default of the constructor's parameter, and
  what \<open>GameManager\<close> passes.
\<close>

definition defaultFixedTimeStep :: number where
  "defaultFixedTimeStep = num_div (Finite 1) (Finite 60)"

text \<open>
  \<open>addSystem\<close>: \<open>system.init(this)\<close>, push, then the (stable) sort by priority. The call
  of \<open>init\<close> is dispatched on the class of the system; \<open>init\<close> here is that method. The
  result is the system as \<open>init\<close> leaves it, and the world.
\<close>

definition addSystem ::
    "('a system_scheme \<Rightarrow> 'a system_scheme) \<Rightarrow> string \<Rightarrow> 'a system_scheme \<Rightarrow> world
       \<Rightarrow> 'a system_scheme \<times> world" where
  "addSystem init name sys w =
     (let sys' = init sys
      in (sys', w\<lparr>systems := sort_key snd (systems w @ [(name, priority sys')])\<rparr>))"

definition addEntity :: "string \<Rightarrow> world \<Rightarrow> world" where
  "addEntity e w = w\<lparr>entitiesToAdd := entitiesToAdd w @ [e]\<rparr>"

definition removeEntity :: "string \<Rightarrow> world \<Rightarrow> world" where
  "removeEntity entityId w =
     (if entityId \<in> set (entitiesToRemove w) then w
      else w\<lparr>entitiesToRemove := entitiesToRemove w @ [entityId]\<rparr>)"

text \<open>\<open>Map.set\<close> on the ids: a new id goes to the end, a known id keeps its place.\<close>

definition mapSet :: "string list \<Rightarrow> string \<Rightarrow> string list" where
  "mapSet m e = (if e \<in> set m then m else m @ [e])"

text \<open>The second loop of \<open>processEntityQueue\<close>, over the ids marked for removal.\<close>

fun removeMarked :: "string list \<Rightarrow> world \<Rightarrow> world" where
  "removeMarked [] w = w"
| "removeMarked (entityId # rest) w =
     removeMarked rest
       (if entityId \<in> set (entities w)
        then w\<lparr>calls := calls w @ [ComponentOnRemove entityId],
               entities := removeAll entityId (entities w)\<rparr>
        else w)"

definition processEntityQueue :: "world \<Rightarrow> world" where
  "processEntityQueue w =
     (let w1 = w\<lparr>entities := foldl mapSet (entities w) (entitiesToAdd w), entitiesToAdd := []\<rparr>;
          w2 = removeMarked (entitiesToRemove w1) w1
      in w2\<lparr>entitiesToRemove := []\<rparr>)"

text \<open>The dispatches of one fixed tick and of the variable tick; \<open>fixedTick\<close> is the loop body.\<close>

definition fixedTickCalls :: "world \<Rightarrow> call list" where
  "fixedTickCalls w =
     map (\<lambda>s. SystemFixedUpdate (fst s) (fixedTimeStep w)) (systems w)
     @ map (\<lambda>e. ComponentFixedUpdate e (fixedTimeStep w)) (entities w)"

definition variableTickCalls :: "number \<Rightarrow> world \<Rightarrow> call list" where
  "variableTickCalls dt w =
     map (\<lambda>s. SystemUpdate (fst s) dt) (systems w) @ map (\<lambda>e. ComponentUpdate e dt) (entities w)"

text \<open>
  The \<open>while (this.accumulator >= this.fixedTimeStep)\<close> loop. It need not end (a step
  of zero never lowers the accumulator, and neither does a step that is lost in the rounding
  of the subtraction), so it is a partial function: \<open>None\<close> is a loop that never returns.
\<close>

definition fixedTick :: "world \<Rightarrow> world" where
  "fixedTick w =
     w\<lparr>calls := calls w @ fixedTickCalls w,
       fixedTicks := Suc (fixedTicks w),
       accumulator := num_sub (accumulator w) (fixedTimeStep w)\<rparr>"

partial_function (option) fixedUpdateLoop :: "world \<Rightarrow> world option" where
  "fixedUpdateLoop w =
     (if num_ge (accumulator w) (fixedTimeStep w) then fixedUpdateLoop (fixedTick w) else Some w)"

text \<open>\<open>World.update\<close>. Times arrive in milliseconds, the accumulator counts seconds.\<close>

definition World_update :: "number \<Rightarrow> world \<Rightarrow> world option" where
  "World_update currentTime w =
     (if num_eq (lastFixedUpdateTime w) (Finite 0) then Some (w\<lparr>lastFixedUpdateTime := currentTime\<rparr>)
      else
        let deltaTime = num_div (num_sub currentTime (lastFixedUpdateTime w)) (Finite 1000);
            w1 = w\<lparr>lastFixedUpdateTime := currentTime\<rparr>;
            cappedDeltaTime = Math_min deltaTime (Finite (1/4));
            w2 = processEntityQueue w1;
            w3 = w2\<lparr>accumulator := num_add (accumulator w2) cappedDeltaTime\<rparr>
        in case fixedUpdateLoop w3 of
             None \<Rightarrow> None
           | Some w4 \<Rightarrow> Some (w4\<lparr>calls := calls w4 @ variableTickCalls cappedDeltaTime w4\<rparr>))"

text \<open>Successive \<open>update\<close> calls, one per frame time.\<close>

fun World_updates :: "number list \<Rightarrow> world \<Rightarrow> world option" where
  "World_updates [] w = Some w"
| "World_updates (t # ts) w =
     (case World_update t w of None \<Rightarrow> None | Some w' \<Rightarrow> World_updates ts w')"

text \<open>
  The per-frame deltas of a run, in seconds, as \<open>update\<close> computes them from the frame
  times that follow the baseline \<open>t0\<close>: \<open>deltaTime\<close> and \<open>cappedDeltaTime\<close>.
\<close>

definition rawDelta :: "number \<Rightarrow> number \<Rightarrow> number" where
  "rawDelta lastTime currentTime = num_div (num_sub currentTime lastTime) (Finite 1000)"

definition cappedDelta :: "number \<Rightarrow> number \<Rightarrow> number" where
  "cappedDelta lastTime currentTime = Math_min (rawDelta lastTime currentTime) (Finite (1/4))"

fun rawDeltas :: "number \<Rightarrow> number list \<Rightarrow> number list" where
  "rawDeltas t0 [] = []"
| "rawDeltas t0 (t # ts) = rawDelta t0 t # rawDeltas t ts"

fun cappedDeltas :: "number \<Rightarrow> number list \<Rightarrow> number list" where
  "cappedDeltas t0 [] = []"
| "cappedDeltas t0 (t # ts) = cappedDelta t0 t # cappedDeltas t ts"

text \<open>
  A bound on the rounding error of one \<open>accumulator += cappedDeltaTime\<close> or one
  \<open>accumulator -= fixedTimeStep\<close> for a step of \<open>s\<close> seconds: the exact results are at
  most \<open>s + 1/4\<close>, and rounding changes a result by at most its \<open>2^53\<close>-th part.
\<close>

definition roundingError :: "real \<Rightarrow> real" where
  "roundingError s = (s + 1/4) / 2 ^ 53"

section \<open>Entities as the systems see them\<close>

text \<open>
  A system reaches a component through \<open>entity.getComponent<T>(type)\<close>. For the systems
  an entity is its id together with, for each component type they ask for, the component
  registered under that type tag, if any. \<open>Entity.addComponent\<close> files every component
  under its own \<open>type\<close>, so the tag decides the class. The entities of the world are
  the values of the world's \<open>Map\<close>, in order; a system function that reads or changes
  them takes them as an argument and returns them.
\<close>

datatype componentType = TRANSFORM | VEHICLE | CHECKPOINT | LAP_COUNTER | NETWORK_IDENTITY

record entityState =
  ident :: string
  transform :: "transformComponent option"
  vehicle :: "vehicleComponent option"
  checkpoint :: "checkpointComponent option"
  lapCounter :: "lapCounterComponent option"
  networkIdentity :: "networkIdentityComponent option"

fun hasComponent :: "entityState \<Rightarrow> componentType \<Rightarrow> bool" where
  "hasComponent e TRANSFORM = (transform e \<noteq> None)"
| "hasComponent e VEHICLE = (vehicle e \<noteq> None)"
| "hasComponent e CHECKPOINT = (checkpoint e \<noteq> None)"
| "hasComponent e LAP_COUNTER = (lapCounter e \<noteq> None)"
| "hasComponent e NETWORK_IDENTITY = (networkIdentity e \<noteq> None)"

definition getEntitiesWithComponents ::
    "componentType list \<Rightarrow> entityState list \<Rightarrow> entityState list" where
  "getEntitiesWithComponents componentTypes ents =
     filter (\<lambda>e. list_all (hasComponent e) componentTypes) ents"

section \<open>Array.prototype.sort\<close>

text \<open>
  \<open>sort(compare)\<close> is stable: an element moves in front of another only when the
  comparator is positive for the pair in their current order. It is modelled as an
  insertion sort that puts \<open>x\<close> in front of the first \<open>y\<close> with \<open>compare x y \<le> 0\<close>.
\<close>

fun insertBy :: "('a \<Rightarrow> 'a \<Rightarrow> int) \<Rightarrow> 'a \<Rightarrow> 'a list \<Rightarrow> 'a list" where
  "insertBy compare x [] = [x]"
| "insertBy compare x (y # ys) =
     (if compare x y \<le> 0 then x # y # ys else y # insertBy compare x ys)"

definition sortBy :: "('a \<Rightarrow> 'a \<Rightarrow> int) \<Rightarrow> 'a list \<Rightarrow> 'a list" where
  "sortBy compare xs = foldr (insertBy compare) xs []"

section \<open>RaceSystem\<close>

text \<open>
  A callback field is \<open>True\<close> when a callback is registered; a call of it is recorded in
  \<open>notified\<close>. The checkpoint entities are held by value.
\<close>

datatype notification = RaceStart | RaceEnd

record raceSystem = system +
  isRaceActive :: bool
  countdownActive :: bool
  countdownTime :: real
  countdownTimer :: real
  lastCountdownTick :: int
  playerRankings :: "string list"
  finishedPlayers :: "string list"
  raceTotalLaps :: int
  checkpoints :: "entityState list"
  onRaceStart :: bool
  onRaceEnd :: bool
  notified :: "notification list"

text \<open>A new \<open>RaceSystem\<close>: the field initialisers of the class and of its base class.\<close>

definition RaceSystem :: raceSystem where
  "RaceSystem =
     \<lparr>world = False, priority = 0, isRaceActive = False, countdownActive = False,
      countdownTime = 3, countdownTimer = 0, lastCountdownTick = -1, playerRankings = [],
      finishedPlayers = [], raceTotalLaps = 3, checkpoints = [], onRaceStart = False,
      onRaceEnd = False, notified = []\<rparr>"

text \<open>
  \<open>RaceSystem.init\<close> overrides \<open>System.init\<close>. It takes no argument and its body is
  empty, so it does not store the world.
\<close>

definition RaceSystem_init :: "raceSystem \<Rightarrow> raceSystem" where
  "RaceSystem_init rs = rs"

text \<open>
  \<open>RaceSystem.startRace\<close>; \<open>now\<close> is the clock reading that the lap counters take as
  their lap start, \<open>ents\<close> are the entities of the world.
\<close>

definition RaceSystem_startRace ::
    "real \<Rightarrow> entityState list \<Rightarrow> raceSystem \<Rightarrow> raceSystem \<times> entityState list" where
  "RaceSystem_startRace now ents rs =
     (if isRaceActive rs then (rs, ents)
      else
        let rs1 = rs\<lparr>isRaceActive := True, countdownActive := False, playerRankings := [],
                     finishedPlayers := [],
                     checkpoints :=
                       map (\<lambda>c. c\<lparr>checkpoint := map_option resetAll (checkpoint c)\<rparr>)
                         (checkpoints rs)\<rparr>;
            isRacer = (\<lambda>e. hasComponent e LAP_COUNTER \<and> hasComponent e VEHICLE);
            rs2 = (if world rs1
                   then rs1\<lparr>playerRankings := map ident (filter isRacer ents)\<rparr> else rs1);
            ents' = (if world rs1
                     then map (\<lambda>e. if isRacer e
                                     then e\<lparr>lapCounter := map_option (startRace now) (lapCounter e)\<rparr>
                                     else e) ents
                     else ents)
        in (if onRaceStart rs2 then rs2\<lparr>notified := notified rs2 @ [RaceStart]\<rparr> else rs2, ents'))"

definition endRace ::
    "entityState list \<Rightarrow> raceSystem \<Rightarrow> raceSystem \<times> entityState list" where
  "endRace ents rs =
     (if \<not> isRaceActive rs then (rs, ents)
      else
        let rs1 = rs\<lparr>isRaceActive := False\<rparr>;
            ents' = (if world rs1
                     then map (\<lambda>e. e\<lparr>lapCounter := map_option finishRace (lapCounter e)\<rparr>) ents
                     else ents)
        in (if onRaceEnd rs1 then rs1\<lparr>notified := notified rs1 @ [RaceEnd]\<rparr> else rs1, ents'))"

text \<open>The comparator handed to \<open>sort\<close> in \<open>updateRankings\<close>.\<close>

definition compareProgress :: "entityState \<Rightarrow> entityState \<Rightarrow> int" where
  "compareProgress a b =
     (case (lapCounter a, lapCounter b) of
        (Some lapCounterA, Some lapCounterB) \<Rightarrow>
          if currentLap lapCounterA \<noteq> currentLap lapCounterB
            then currentLap lapCounterB - currentLap lapCounterA
          else if currentCheckpoint lapCounterA \<noteq> currentCheckpoint lapCounterB
            then currentCheckpoint lapCounterB - currentCheckpoint lapCounterA
          else 0
      | _ \<Rightarrow> 0)"

definition activeRacers :: "entityState list \<Rightarrow> raceSystem \<Rightarrow> entityState list" where
  "activeRacers ents rs =
     filter (\<lambda>racer. ident racer \<notin> set (finishedPlayers rs))
       (getEntitiesWithComponents [LAP_COUNTER, TRANSFORM] ents)"

definition updateRankings :: "entityState list \<Rightarrow> raceSystem \<Rightarrow> raceSystem" where
  "updateRankings ents rs =
     (if \<not> isRaceActive rs \<or> \<not> world rs then rs
      else rs\<lparr>playerRankings :=
                finishedPlayers rs @ map ident (sortBy compareProgress (activeRacers ents rs))\<rparr>)"

definition playerFinish ::
    "string \<Rightarrow> entityState list \<Rightarrow> raceSystem \<Rightarrow> raceSystem \<times> entityState list" where
  "playerFinish entityId ents rs =
     (if entityId \<in> set (finishedPlayers rs) then (rs, ents)
      else
        let rs1 = rs\<lparr>finishedPlayers := finishedPlayers rs @ [entityId]\<rparr>;
            rs2 = updateRankings ents rs1
        in if world rs2
              \<and> length (getEntitiesWithComponents [LAP_COUNTER] ents) = length (finishedPlayers rs2)
           then endRace ents rs2 else (rs2, ents))"

text \<open>\<open>Array.prototype.indexOf\<close>, with \<open>None\<close> for \<open>-1\<close>.\<close>

fun indexOf :: "'a \<Rightarrow> 'a list \<Rightarrow> nat option" where
  "indexOf x [] = None"
| "indexOf x (y # ys) = (if x = y then Some 0 else map_option Suc (indexOf x ys))"

definition getPlayerPosition :: "string \<Rightarrow> raceSystem \<Rightarrow> nat" where
  "getPlayerPosition entityId rs =
     (case indexOf entityId (playerRankings rs) of
        None \<Rightarrow> length (playerRankings rs) + 1
      | Some i \<Rightarrow> i + 1)"

text \<open>
  Order of progress: \<open>a\<close> may stand before \<open>b\<close> when \<open>a\<close> is on a later lap, or on the same
  lap and not behind in checkpoints.
\<close>

definition aheadOrLevel :: "entityState \<Rightarrow> entityState \<Rightarrow> bool" where
  "aheadOrLevel a b =
     (case (lapCounter a, lapCounter b) of
        (Some la, Some lb) \<Rightarrow>
          currentLap la > currentLap lb
          \<or> (currentLap la = currentLap lb \<and> currentCheckpoint la \<ge> currentCheckpoint lb)
      | _ \<Rightarrow> False)"

section \<open>NetworkSystem\<close>

datatype NetworkMessageType =
    TRANSFORM_UPDATE | VEHICLE_UPDATE | PLAYER_JOIN | PLAYER_LEAVE
  | RACE_START | RACE_END | CHECKPOINT_PASSED | LAP_COMPLETED

record transformData =
  data_position :: vec3
  data_rotation :: quat
  data_scale :: "vec3 option"

record vehicleData =
  data_velocity :: vec3
  data_steeringAngle :: real
  data_engineForce :: real
  data_brakingForce :: real

text \<open>
  The \<open>data\<close> field has type \<open>any\<close>; the handlers cast it without a check. Reading a
  field of a payload of the wrong shape throws a \<open>TypeError\<close>.
\<close>

datatype payload = TransformPayload transformData | VehiclePayload vehicleData | OtherPayload

datatype jsError = TypeError

record networkMessage =
  msgType :: NetworkMessageType
  senderId :: string
  entityId :: string
  timestamp :: real
  msgData :: payload

text \<open>
  \<open>socket\<close> is \<open>True\<close> when the socket object is present; what \<open>socket.emit\<close> is given
  is appended to \<open>emitted\<close>. The registered entities are held by value. \<open>NetworkSystem\<close>
  does not override \<open>init\<close>.
\<close>

record networkSystem = system +
  clientId :: string
  isConnected :: bool
  socket :: bool
  systemSyncInterval :: real
  systemLastSyncTime :: real
  networkEntities :: "string \<rightharpoonup> entityState"
  emitted :: "(string \<times> networkMessage) list"

definition NetworkSystem :: networkSystem where
  "NetworkSystem =
     \<lparr>world = False, priority = -10, clientId = [], isConnected = False, socket = False,
      systemSyncInterval = 100, systemLastSyncTime = 0, networkEntities = Map.empty,
      emitted = []\<rparr>"

text \<open>
  \<open>connect\<close>, when not yet connected, keeps the client id, installs the socket and sets
  the flag; \<open>disconnect\<close> undoes the last two.
\<close>

definition connect :: "string \<Rightarrow> networkSystem \<Rightarrow> networkSystem" where
  "connect cid ns =
     (if isConnected ns then ns else ns\<lparr>clientId := cid, socket := True, isConnected := True\<rparr>)"

definition disconnect :: "networkSystem \<Rightarrow> networkSystem" where
  "disconnect ns =
     (if \<not> isConnected ns \<or> \<not> socket ns then ns else ns\<lparr>socket := False, isConnected := False\<rparr>)"

definition registerNetworkEntity :: "entityState \<Rightarrow> networkSystem \<Rightarrow> networkSystem" where
  "registerNetworkEntity e ns =
     (case networkIdentity e of
        None \<Rightarrow> ns
      | Some ni \<Rightarrow> ns\<lparr>networkEntities := (networkEntities ns)(networkId ni \<mapsto> e)\<rparr>)"

definition unregisterNetworkEntity :: "string \<Rightarrow> networkSystem \<Rightarrow> networkSystem" where
  "unregisterNetworkEntity nid ns = ns\<lparr>networkEntities := (networkEntities ns)(nid := None)\<rparr>"

definition handleTransformUpdate :: "networkMessage \<Rightarrow> networkSystem \<Rightarrow> jsError + networkSystem" where
  "handleTransformUpdate message ns =
     (if senderId message = clientId ns then Inr ns
      else case networkEntities ns (entityId message) of
        None \<Rightarrow> Inr ns
      | Some e \<Rightarrow>
          (case (networkIdentity e, transform e) of
             (Some ni, Some t) \<Rightarrow>
               if \<not> isOwner ni then
                 (case msgData message of
                    TransformPayload d \<Rightarrow>
                      Inr (ns\<lparr>networkEntities := (networkEntities ns)(entityId message \<mapsto>
                             e\<lparr>transform := Some (t\<lparr>position := data_position d,
                                                    quaternion := data_rotation d,
                                                    scale := (case data_scale d of
                                                                None \<Rightarrow> scale t
                                                              | Some sc \<Rightarrow> sc)\<rparr>)\<rparr>)\<rparr>)
                  | _ \<Rightarrow> Inl TypeError)
               else Inr ns
           | _ \<Rightarrow> Inr ns))"

definition handleVehicleUpdate :: "networkMessage \<Rightarrow> networkSystem \<Rightarrow> jsError + networkSystem" where
  "handleVehicleUpdate message ns =
     (if senderId message = clientId ns then Inr ns
      else case networkEntities ns (entityId message) of
        None \<Rightarrow> Inr ns
      | Some e \<Rightarrow>
          (case (networkIdentity e, vehicle e) of
             (Some ni, Some v) \<Rightarrow>
               if \<not> isOwner ni then
                 (case msgData message of
                    VehiclePayload d \<Rightarrow>
                      Inr (ns\<lparr>networkEntities := (networkEntities ns)(entityId message \<mapsto>
                             e\<lparr>vehicle := Some (v\<lparr>velocity := data_velocity d,
                                                  steeringAngle := data_steeringAngle d,
                                                  engineForce := data_engineForce d,
                                                  brakingForce := data_brakingForce d\<rparr>)\<rparr>)\<rparr>)
                  | _ \<Rightarrow> Inl TypeError)
               else Inr ns
           | _ \<Rightarrow> Inr ns))"

text \<open>
  The two senders. \<open>stamp\<close> is the clock reading that goes into the message.
\<close>

definition sendTransformUpdate ::
    "real \<Rightarrow> entityState \<Rightarrow> networkIdentityComponent \<Rightarrow> networkSystem \<Rightarrow> networkSystem" where
  "sendTransformUpdate stamp e ni ns =
     (if \<not> isConnected ns \<or> \<not> socket ns then ns
      else case transform e of
        None \<Rightarrow> ns
      | Some t \<Rightarrow>
          ns\<lparr>emitted := emitted ns @
               [(''transform'',
                 \<lparr>msgType = TRANSFORM_UPDATE, senderId = clientId ns, entityId = networkId ni,
                  timestamp = stamp,
                  msgData = TransformPayload
                    \<lparr>data_position = position t, data_rotation = quaternion t,
                     data_scale = (if syncScale ni then Some (scale t) else None)\<rparr>\<rparr>)]\<rparr>)"

definition sendVehicleUpdate ::
    "real \<Rightarrow> entityState \<Rightarrow> networkIdentityComponent \<Rightarrow> networkSystem \<Rightarrow> networkSystem" where
  "sendVehicleUpdate stamp e ni ns =
     (if \<not> isConnected ns \<or> \<not> socket ns then ns
      else case vehicle e of
        None \<Rightarrow> ns
      | Some v \<Rightarrow>
          ns\<lparr>emitted := emitted ns @
               [(''vehicle'',
                 \<lparr>msgType = VEHICLE_UPDATE, senderId = clientId ns, entityId = networkId ni,
                  timestamp = stamp,
                  msgData = VehiclePayload
                    \<lparr>data_velocity = velocity v, data_steeringAngle = steeringAngle v,
                     data_engineForce = engineForce v, data_brakingForce = brakingForce v\<rparr>\<rparr>)]\<rparr>)"

text \<open>
  The body of the loop of \<open>NetworkSystem.update\<close> for one entity, and the loop. The
  readings of the clock taken while sending are taken to be the reading \<open>currentTime\<close> of
  the start of the call.
\<close>

definition syncEntity :: "real \<Rightarrow> entityState \<Rightarrow> networkSystem \<Rightarrow> entityState \<times> networkSystem" where
  "syncEntity currentTime e ns =
     (case networkIdentity e of
        None \<Rightarrow> (e, ns)
      | Some ni \<Rightarrow>
          if \<not> isOwner ni then (e, ns)
          else
            let (due, ni') = needsSync currentTime ni;
                e' = e\<lparr>networkIdentity := Some ni'\<rparr>
            in if \<not> due then (e', ns)
               else
                 let ns1 = (if syncPosition ni' \<or> syncRotation ni' \<or> syncScale ni'
                            then sendTransformUpdate currentTime e' ni' ns else ns);
                     ns2 = (if syncVelocity ni' \<and> hasComponent e' VEHICLE
                            then sendVehicleUpdate currentTime e' ni' ns1 else ns1)
                 in (e', ns2))"

fun syncEntities ::
    "real \<Rightarrow> entityState list \<Rightarrow> networkSystem \<Rightarrow> entityState list \<times> networkSystem" where
  "syncEntities currentTime [] ns = ([], ns)"
| "syncEntities currentTime (e # es) ns =
     (let (e', ns1) = syncEntity currentTime e ns;
          (es', ns2) = syncEntities currentTime es ns1
      in (e' # es', ns2))"

text \<open>
  \<open>NetworkSystem.update\<close>; \<open>currentTime\<close> is the reading of \<open>performance.now()\<close>. \<open>None\<close>
  is one of the two early returns, which leave everything as it was; \<open>Some\<close> is a sync
  pass, with the system and the world entities as the pass leaves them.
\<close>

definition NetworkSystem_update ::
    "real \<Rightarrow> entityState list \<Rightarrow> networkSystem \<Rightarrow> (networkSystem \<times> entityState list) option" where
  "NetworkSystem_update currentTime ents ns =
     (if \<not> isConnected ns \<or> \<not> world ns then None
      else if currentTime - systemLastSyncTime ns < systemSyncInterval ns then None
      else
        let (ents', ns') = syncEntities currentTime ents ns
        in Some (ns'\<lparr>systemLastSyncTime := currentTime\<rparr>, ents'))"

text \<open>
  A run of \<open>update\<close> calls. Each element is the clock reading of a call and the world
  entities as that call finds them (other systems change them between calls). The
  result lists the readings of the calls that were sync passes.
\<close>

fun syncPassTimes :: "(real \<times> entityState list) list \<Rightarrow> networkSystem \<Rightarrow> real list" where
  "syncPassTimes [] ns = []"
| "syncPassTimes ((t, ents) # rest) ns =
     (case NetworkSystem_update t ents ns of
        None \<Rightarrow> syncPassTimes rest ns
      | Some (ns', ents') \<Rightarrow> t # syncPassTimes rest ns')"

section \<open>Example data\<close>

text \<open>Concrete values on which the properties below are also evaluated.\<close>

definition exampleTransform :: transformComponent where
  "exampleTransform =
     \<lparr>position = Vector3 0 0 0, rotation = Vector3 0 0 0, quaternion = Quaternion 0 0 0 1,
      scale = Vector3 1 1 1\<rparr>"

definition exampleIdentity :: "bool \<Rightarrow> bool \<Rightarrow> networkIdentityComponent" where
  "exampleIdentity owned dirty =
     \<lparr>networkId = ''n1'', ownerId = (if owned then ''me'' else ''you''), isOwner = owned,
      isLocalPlayer = owned, syncPosition = True, syncRotation = True, syncScale = False,
      syncVelocity = True, syncInterval = 100, lastSyncTime = 0, isDirty = dirty\<rparr>"

definition exampleCar :: "bool \<Rightarrow> bool \<Rightarrow> entityState" where
  "exampleCar owned dirty =
     \<lparr>ident = ''car'', transform = Some exampleTransform, vehicle = Some VehicleComponent,
      checkpoint = None, lapCounter = None,
      networkIdentity = Some (exampleIdentity owned dirty)\<rparr>"

text \<open>A network system added to a world, connected as \<open>me\<close>, with a remote car registered.\<close>

definition exampleNetworkSystem :: networkSystem where
  "exampleNetworkSystem =
     registerNetworkEntity (exampleCar False False)
       (connect ''me'' (fst (addSystem System_init ''NetworkSystem'' NetworkSystem (World defaultFixedTimeStep))))"

definition exampleMessage :: "string \<Rightarrow> networkMessage" where
  "exampleMessage sender =
     \<lparr>msgType = TRANSFORM_UPDATE, senderId = sender, entityId = ''n1'', timestamp = 5,
      msgData = TransformPayload
        \<lparr>data_position = Vector3 1 2 3, data_rotation = Quaternion 0 0 0 1, data_scale = None\<rparr>\<rparr>"

definition exampleCheckpoint :: checkpointComponent where
  "exampleCheckpoint = \<lparr>index = 1, isStartFinish = False, radius = 20, passedTimestamps = Map.empty\<rparr>"

text \<open>A car as it is created: transform, vehicle and a lap counter for 3 laps, 5 checkpoints.\<close>

definition newCar :: "string \<Rightarrow> entityState" where
  "newCar name =
     \<lparr>ident = name, transform = Some exampleTransform, vehicle = Some VehicleComponent,
      checkpoint = None, lapCounter = Some (LapCounterComponent 3 5), networkIdentity = None\<rparr>"

text \<open>The same car in a race, on the given lap and at the given checkpoint.\<close>

definition exampleRacer :: "string \<Rightarrow> int \<Rightarrow> int \<Rightarrow> entityState" where
  "exampleRacer name lap cp =
     (newCar name)\<lparr>lapCounter :=
        Some ((startRace 0 (LapCounterComponent 3 5))\<lparr>currentLap := lap, currentCheckpoint := cp\<rparr>)\<rparr>"

text \<open>
  A world with the default fixed step to which a new race system has been added, and
  that race system.
\<close>

definition exampleWorld :: world where
  "exampleWorld = snd (addSystem RaceSystem_init ''RaceSystem'' RaceSystem (World defaultFixedTimeStep))"

definition addedRaceSystem :: raceSystem where
  "addedRaceSystem = fst (addSystem RaceSystem_init ''RaceSystem'' RaceSystem (World defaultFixedTimeStep))"

text \<open>A race system that holds the world, in a race that \<open>a\<close> has finished.\<close>

definition exampleRace :: raceSystem where
  "exampleRace =
     (System_init RaceSystem)\<lparr>isRaceActive := True, finishedPlayers := [''a''], onRaceEnd := True\<rparr>"

definition exampleStore :: store where
  "exampleStore =
     \<lparr>componentObjs = [1 \<mapsto> \<lparr>ctype = ''vehicle'', entity = None\<rparr>,
                       2 \<mapsto> \<lparr>ctype = ''vehicle'', entity = None\<rparr>],
      entityObjs = [0 \<mapsto> \<lparr>obj_id = ''car'', components = [], tags = {}\<rparr>]\<rparr>"

section \<open>Properties\<close>

subsection \<open>VehicleComponent\<close>

text \<open>
  C5. Whatever real arguments \<open>setInputs\<close> receives, the stored throttle is the argument
  clamped to \<open>[-1, 1]\<close>, the stored brake is the argument clamped to \<open>[0, 1]\<close> and the
  stored steering is the argument clamped to \<open>[-1, 1]\<close>; no other field changes.
\<close>

theorem setInputs_clamps:
  "throttleInput (setInputs t b s v) = (if t < -1 then -1 else if 1 < t then 1 else t)
   \<and> brakeInput (setInputs t b s v) = (if b < 0 then 0 else if 1 < b then 1 else b)
   \<and> steeringInput (setInputs t b s v) = (if s < -1 then -1 else if 1 < s then 1 else s)
   \<and> - 1 \<le> throttleInput (setInputs t b s v) \<and> throttleInput (setInputs t b s v) \<le> 1
   \<and> 0 \<le> brakeInput (setInputs t b s v) \<and> brakeInput (setInputs t b s v) \<le> 1
   \<and> - 1 \<le> steeringInput (setInputs t b s v) \<and> steeringInput (setInputs t b s v) \<le> 1
   \<and> (setInputs t b s v)\<lparr>throttleInput := throttleInput v,
        brakeInput := brakeInput v, steeringInput := steeringInput v\<rparr> = v"
  by (simp add: setInputs_def)

subsection \<open>NetworkIdentityComponent\<close>


subsection \<open>CheckpointComponent\<close>

lemma checkVehiclePassing_cases:
  "checkVehiclePassing (Some p) now v pos c =
     (if distanceTo p pos \<le> radius c \<and> passedTimestamps c v = None
        then (True, c\<lparr>passedTimestamps := (passedTimestamps c)(v \<mapsto> now)\<rparr>)
      else if distanceTo p pos > radius c * 1.5
        then (False, c\<lparr>passedTimestamps := (passedTimestamps c)(v := None)\<rparr>)
      else (False, c))"
proof -
  have "0 \<le> distanceTo p pos" by (cases p; cases pos) simp
  then show ?thesis
    by (auto simp: checkVehiclePassing_def Let_def)
qed

lemma radius_checkVehiclePassing [simp]: "radius (snd (checkVehiclePassing tp now v pos c)) = radius c"
  by (auto simp: checkVehiclePassing_def Let_def split: option.splits)

lemma checkVehiclePassingRun_append:
  "checkVehiclePassingRun tp (xs @ ys) c =
     (let (bs, c') = checkVehiclePassingRun tp xs c;
          (bs', c'') = checkVehiclePassingRun tp ys c'
      in (bs @ bs', c''))"
  by (induction xs arbitrary: c) (auto simp: Let_def split_beta)

lemma stay_latched:
  assumes "passedTimestamps c v \<noteq> None"
    and "\<forall>(u, pos, t) \<in> set ys. u = v \<longrightarrow> distanceTo p pos \<le> radius c * 1.5"
  shows "passedTimestamps (snd (checkVehiclePassingRun (Some p) ys c)) v \<noteq> None"
  using assms
proof (induction ys arbitrary: c)
  case Nil then show ?case by simp
next
  case (Cons a ys)
  obtain u pos t where a: "a = (u, pos, t)" by (cases a)
  let ?r = "checkVehiclePassing (Some p) t u pos c"
  have 1: "passedTimestamps (snd ?r) v \<noteq> None"
    using Cons.prems by (auto simp: checkVehiclePassing_cases a)
  have 2: "radius (snd ?r) = radius c" by simp
  have "passedTimestamps (snd (checkVehiclePassingRun (Some p) ys (snd ?r))) v \<noteq> None"
    using Cons.IH[OF 1] Cons.prems(2) 2 by auto
  then show ?case by (simp add: a Let_def split_beta)
qed

lemma distanceTo_nonneg: "0 \<le> distanceTo p q"
  by (cases p; cases q) simp

lemma radius_run: "radius (snd (checkVehiclePassingRun tp cs c)) = radius c"
  by (induction cs arbitrary: c) (auto simp: split_beta)

lemma retrigger_needs_exit:
  assumes "fst (checkVehiclePassingRun (Some p)
                  (before @ [(v, pos1, t1)] @ between @ [(v, pos2, t2)]) c) ! length before"
    and "fst (checkVehiclePassingRun (Some p)
                  (before @ [(v, pos1, t1)] @ between @ [(v, pos2, t2)]) c)
           ! (length before + 1 + length between)"
  shows "\<exists>(u, q, t) \<in> set between. u = v \<and> distanceTo p q > radius c * 1.5"
proof -
  let ?run = "checkVehiclePassingRun (Some p)"
  let ?cs = "before @ [(v, pos1, t1)] @ between @ [(v, pos2, t2)]"
  define c1 where "c1 = snd (?run before c)"
  define c2 where "c2 = snd (checkVehiclePassing (Some p) t1 v pos1 c1)"
  define c3 where "c3 = snd (?run between c2)"
  have len: "length (fst (?run xs d)) = length xs" for xs d
    by (induction xs arbitrary: d) (auto simp: split_beta)
  have f: "fst (?run ?cs c) = fst (?run before c) @ [fst (checkVehiclePassing (Some p) t1 v pos1 c1)]
              @ fst (?run between c2) @ [fst (checkVehiclePassing (Some p) t2 v pos2 c3)]"
    by (simp add: checkVehiclePassingRun_append Let_def split_beta c1_def c2_def c3_def)
  have b1: "fst (checkVehiclePassing (Some p) t1 v pos1 c1)"
    using assms(1)[unfolded f] by (simp add: nth_append len)
  have b2: "fst (checkVehiclePassing (Some p) t2 v pos2 c3)"
    using assms(2)[unfolded f] by (simp add: nth_append len)
  have l2: "passedTimestamps c2 v \<noteq> None"
    using b1 by (auto simp: c2_def checkVehiclePassing_cases split: if_splits)
  have r2: "radius c2 = radius c" by (simp add: c2_def c1_def radius_run)
  show ?thesis
  proof (rule ccontr)
    assume "\<not> (\<exists>(u, q, t) \<in> set between. u = v \<and> distanceTo p q > radius c * 1.5)"
    then have "\<forall>(u, q, t) \<in> set between. u = v \<longrightarrow> distanceTo p q \<le> radius c2 * 1.5"
      by (auto simp: r2)
    from stay_latched[OF l2 this] have "passedTimestamps c3 v \<noteq> None" by (simp add: c3_def)
    with b2 show False by (auto simp: checkVehiclePassing_cases split: if_splits)
  qed
qed

text \<open>
  In particular a vehicle that has triggered and then stays within the radius does not
  trigger again.
\<close>

lemma inside_never_retriggers:
  assumes "fst (checkVehiclePassingRun (Some p)
                  (before @ [(v, pos1, t1)] @ between @ [(v, pos2, t2)]) c) ! length before"
    and "\<forall>(u, q, t) \<in> set between. u = v \<longrightarrow> distanceTo p q \<le> radius c"
  shows "\<not> fst (checkVehiclePassingRun (Some p)
                  (before @ [(v, pos1, t1)] @ between @ [(v, pos2, t2)]) c)
           ! (length before + 1 + length between)"
proof
  assume "fst (checkVehiclePassingRun (Some p)
                  (before @ [(v, pos1, t1)] @ between @ [(v, pos2, t2)]) c)
           ! (length before + 1 + length between)"
  from retrigger_needs_exit[OF assms(1) this]
  obtain u q t where m: "(u, q, t) \<in> set between" "u = v" "distanceTo p q > radius c * 1.5"
    by auto
  with assms(2) have "distanceTo p q \<le> radius c" by auto
  with m(3) distanceTo_nonneg[of p q] show False by simp
qed

text \<open>
  C3. For a checkpoint whose entity has a transform at \<open>p\<close>: \<open>checkVehiclePassing\<close>
  returns true exactly when the distance is at most the radius and the vehicle has no
  latch entry, and it then latches the vehicle with the current timestamp; when the
  distance exceeds 1.5 times the radius it clears the vehicle's entry and returns false;
  in every other case it returns false and leaves the component unchanged. In any run
  of calls, two calls for the same vehicle that both return true have between them a
  call for that vehicle at a distance above 1.5 times the radius: a vehicle that stays
  within the radius, or within the dead zone, does not trigger again.
\<close>

theorem checkpoint_hysteresis:
  "(fst (checkVehiclePassing (Some p) now v pos c)
      \<longleftrightarrow> distanceTo p pos \<le> radius c \<and> passedTimestamps c v = None)
   \<and> (distanceTo p pos \<le> radius c \<and> passedTimestamps c v = None \<longrightarrow>
        checkVehiclePassing (Some p) now v pos c
          = (True, c\<lparr>passedTimestamps := (passedTimestamps c)(v \<mapsto> now)\<rparr>))
   \<and> (distanceTo p pos > radius c * 1.5 \<longrightarrow>
        checkVehiclePassing (Some p) now v pos c
          = (False, c\<lparr>passedTimestamps := (passedTimestamps c)(v := None)\<rparr>))
   \<and> (\<not> (distanceTo p pos \<le> radius c \<and> passedTimestamps c v = None)
        \<and> \<not> distanceTo p pos > radius c * 1.5 \<longrightarrow>
        checkVehiclePassing (Some p) now v pos c = (False, c))
   \<and> (fst (checkVehiclePassingRun (Some p) (before @ [(v, pos1, t1)] @ between @ [(v, pos2, t2)]) c)
          ! length before
        \<and> fst (checkVehiclePassingRun (Some p) (before @ [(v, pos1, t1)] @ between @ [(v, pos2, t2)]) c)
          ! (length before + 1 + length between) \<longrightarrow>
        (\<exists>(u, q, t) \<in> set between. u = v \<and> distanceTo p q > radius c * 1.5))"
proof -
  have 1: "fst (checkVehiclePassing (Some p) now v pos c)
      \<longleftrightarrow> distanceTo p pos \<le> radius c \<and> passedTimestamps c v = None"
    using distanceTo_nonneg[of p pos] by (auto simp: checkVehiclePassing_cases)
  have 2: "checkVehiclePassing (Some p) now v pos c
          = (True, c\<lparr>passedTimestamps := (passedTimestamps c)(v \<mapsto> now)\<rparr>)"
    if "distanceTo p pos \<le> radius c \<and> passedTimestamps c v = None"
    using that by (simp add: checkVehiclePassing_cases)
  have 3: "checkVehiclePassing (Some p) now v pos c
          = (False, c\<lparr>passedTimestamps := (passedTimestamps c)(v := None)\<rparr>)"
    if "distanceTo p pos > radius c * 1.5"
    using that distanceTo_nonneg[of p pos] by (auto simp: checkVehiclePassing_cases)
  have 4: "checkVehiclePassing (Some p) now v pos c = (False, c)"
    if "\<not> (distanceTo p pos \<le> radius c \<and> passedTimestamps c v = None)
        \<and> \<not> distanceTo p pos > radius c * 1.5"
    using that by (auto simp: checkVehiclePassing_cases)
  from 1 2 3 4 retrigger_needs_exit[of p before v pos1 t1 between pos2 t2 c]
  show ?thesis by blast
qed

lemma sqrt_values: "sqrt 25 = 5" "sqrt 625 = 25" "sqrt 1600 = 40"
  by (rule real_sqrt_unique; simp)+

text \<open>
  The checkpoint of radius 20 at the origin: a car at distance 5 triggers and is latched;
  at distance 25 (dead zone) and again at distance 5 nothing happens; at distance 40 the
  latch is cleared; back at distance 5 the car triggers again.
\<close>

theorem checkpoint_hysteresis_witness:
  "distanceTo (Vector3 0 0 0) (Vector3 3 4 0) \<le> radius exampleCheckpoint
   \<and> passedTimestamps exampleCheckpoint ''car'' = None
   \<and> checkVehiclePassing (Some (Vector3 0 0 0)) 10 ''car'' (Vector3 3 4 0) exampleCheckpoint
     = (True, exampleCheckpoint\<lparr>passedTimestamps := [''car'' \<mapsto> 10]\<rparr>)
   \<and> distanceTo (Vector3 0 0 0) (Vector3 40 0 0) > radius exampleCheckpoint * 1.5
   \<and> checkVehiclePassing (Some (Vector3 0 0 0)) 20 ''car'' (Vector3 40 0 0)
        (exampleCheckpoint\<lparr>passedTimestamps := [''car'' \<mapsto> 10]\<rparr>)
     = (False, exampleCheckpoint)
   \<and> \<not> distanceTo (Vector3 0 0 0) (Vector3 0 0 25) \<le> radius exampleCheckpoint
   \<and> \<not> distanceTo (Vector3 0 0 0) (Vector3 0 0 25) > radius exampleCheckpoint * 1.5
   \<and> checkVehiclePassing (Some (Vector3 0 0 0)) 20 ''car'' (Vector3 0 0 25)
        (exampleCheckpoint\<lparr>passedTimestamps := [''car'' \<mapsto> 10]\<rparr>)
     = (False, exampleCheckpoint\<lparr>passedTimestamps := [''car'' \<mapsto> 10]\<rparr>)
   \<and> fst (checkVehiclePassingRun (Some (Vector3 0 0 0))
        ([] @ [(''car'', Vector3 3 4 0, 10)]
            @ [(''car'', Vector3 0 0 25, 20), (''car'', Vector3 3 4 0, 30), (''car'', Vector3 40 0 0, 40)]
            @ [(''car'', Vector3 3 4 0, 50)]) exampleCheckpoint)
     = [True, False, False, False, True]
   \<and> (\<exists>(u, q, t) \<in> set [(''car'', Vector3 0 0 25, 20), (''car'', Vector3 3 4 0, 30),
                            (''car'', Vector3 40 0 0, 40 :: real)].
          u = ''car'' \<and> distanceTo (Vector3 0 0 0) q > radius exampleCheckpoint * 1.5)"
  using checkpoint_hysteresis[of "Vector3 0 0 0" 10 "''car''" "Vector3 3 4 0" exampleCheckpoint
          "[]" "Vector3 3 4 0" 10
          "[(''car'', Vector3 0 0 25, 20), (''car'', Vector3 3 4 0, 30), (''car'', Vector3 40 0 0, 40)]"
          "Vector3 3 4 0" 50]
    checkpoint_hysteresis[of "Vector3 0 0 0" 20 "''car''" "Vector3 40 0 0"
          "exampleCheckpoint\<lparr>passedTimestamps := [''car'' \<mapsto> 10]\<rparr>"]
    checkpoint_hysteresis[of "Vector3 0 0 0" 20 "''car''" "Vector3 0 0 25"
          "exampleCheckpoint\<lparr>passedTimestamps := [''car'' \<mapsto> 10]\<rparr>"]
  by (simp add: checkVehiclePassing_def exampleCheckpoint_def sqrt_values)

subsection \<open>LapCounterComponent\<close>

text \<open>
  C2. On a lap counter with \<open>totalLaps = 3\<close> and \<open>totalCheckpoints = 5\<close> on which
  \<open>startRace\<close> has just run, passing checkpoints 0, 1, 2, 3, 4, 0 (at any timestamps)
  leaves \<open>currentLap = 2\<close> and a lap history of exactly one record, which is valid and
  whose checkpoint times hold an entry for each of the indices 0 to 4. The first pass of
  checkpoint 0 is not accepted, the other five are.
\<close>

theorem lap_scenario:
  "passCheckpoints [(0, t0), (1, t1), (2, t2), (3, t3), (4, t4), (0, t5)]
       (startRace now (l\<lparr>totalLaps := 3, totalCheckpoints := 5\<rparr>))
     = ([False, True, True, True, True, True],
        \<lparr>currentLap = 2, totalLaps = 3, lapStartTime = t5, isRacing = True,
         currentCheckpoint = 0, totalCheckpoints = 5, checkpointPassing = [],
         lapHistory = [\<lparr>lapNumber = 1, startTime = now, endTime = t5, duration = t5 - now,
                         checkpointTimes = [(0, t5), (1, t1), (2, t2), (3, t3), (4, t4)],
                         valid = True\<rparr>],
         bestLapTime = Some (t5 - now)\<rparr>)"
  by (simp add: startRace_def passCheckpoint_def completeLap_def validateLap_def js_rem_def
        finishRace_def Let_def)

subsection \<open>Entity\<close>

lemma filter_update_key:
  "distinct (map fst al) \<Longrightarrow> filter (\<lambda>kv. fst kv = k) (AList.update k v al) = [(k, v)]"
proof (induction al)
  case Nil
  then show ?case by simp
next
  case (Cons p ps)
  show ?case
  proof (cases "fst p = k")
    case True
    then have "k \<notin> fst ` set ps" using Cons.prems by auto
    then have "filter (\<lambda>kv. fst kv = k) ps = []" by (auto simp: filter_empty_conv)
    with True show ?thesis by simp
  next
    case False
    with Cons show ?thesis by simp
  qed
qed

text \<open>
  C7. Adding \<open>c1\<close> and then a different component \<open>c2\<close> of the same type to an entity
  leaves the entity with \<open>c2\<close> as the one component under that type, and \<open>c2\<close> points
  back at the entity. The back-reference of the replaced \<open>c1\<close> is not detached: it still
  points at the entity.
\<close>

theorem addComponent_same_type:
  assumes "entityObjs s e = Some eo" and "distinct (map fst (components eo))"
    and "componentObjs s c1 = Some co1"
    and "componentObjs s c2 = Some co2" and "ctype co1 = ctype co2" and "c1 \<noteq> c2"
  shows "\<exists>s' eo'. Option.bind (addComponent e c1 s) (addComponent e c2) = Some s'
           \<and> entityObjs s' e = Some eo'
           \<and> filter (\<lambda>kv. fst kv = ctype co1) (components eo') = [(ctype co1, c2)]
           \<and> getComponent e (ctype co1) s' = Some c2
           \<and> entityOf c2 s' = Some e
           \<and> entityOf c1 s' = Some e"
  using assms
  by (simp add: addComponent_def getComponent_def entityOf_def update_conv' filter_update_key)

text \<open>
  An entity without components and two vehicle components that belong to no entity yet:
  after the two additions the first component still names the entity.
\<close>

theorem addComponent_same_type_witness:
  "entityObjs exampleStore 0 = Some \<lparr>obj_id = ''car'', components = [], tags = {}\<rparr>
   \<and> componentObjs exampleStore 1 = Some \<lparr>ctype = ''vehicle'', entity = None\<rparr>
   \<and> componentObjs exampleStore 2 = Some \<lparr>ctype = ''vehicle'', entity = None\<rparr>
   \<and> (1 :: ref) \<noteq> 2
   \<and> map_option (\<lambda>s'. (map_option components (entityObjs s' 0), getComponent 0 ''vehicle'' s',
                      entityOf 2 s', entityOf 1 s'))
     (Option.bind (addComponent 0 1 exampleStore) (addComponent 0 2))
   = Some (Some [(''vehicle'', 2)], Some 2, Some 0, Some 0)"
  using addComponent_same_type[of exampleStore 0
      "\<lparr>obj_id = ''car'', components = [], tags = {}\<rparr>" 1 "\<lparr>ctype = ''vehicle'', entity = None\<rparr>"
      2 "\<lparr>ctype = ''vehicle'', entity = None\<rparr>"]
  by (simp add: addComponent_def getComponent_def entityOf_def exampleStore_def)

text \<open>\<open>removeComponent\<close>, by contrast, clears the back-reference of the component it drops.\<close>

lemma removeComponent_detaches:
  assumes "entityObjs s e = Some eo" and "map_of (components eo) ty = Some c"
    and "componentObjs s c = Some co"
  shows "\<exists>s'. removeComponent e ty s = Some s' \<and> entityOf c s' = None"
  using assms by (simp add: removeComponent_def entityOf_def)

subsection \<open>Rounding to binary64\<close>

lemma bitLength_bounds: "0 < n \<Longrightarrow> 2 ^ (bitLength n - 1) \<le> n \<and> n < 2 ^ bitLength n"
proof (induction n rule: bitLength.induct)
  case (1 n)
  show ?case
  proof (cases "n div 2 = 0")
    case True
    with 1(2) have "n = 1" by presburger
    then show ?thesis by (simp add: bitLength.simps)
  next
    case False
    then have h: "0 < n div 2" by simp
    from 1(1)[OF _ h] 1(2) have ih: "2 ^ (bitLength (n div 2) - 1) \<le> n div 2" "n div 2 < 2 ^ bitLength (n div 2)"
      by simp_all
    have b: "bitLength n = Suc (bitLength (n div 2))" using 1(2) by (subst bitLength.simps) simp
    have pos: "0 < bitLength (n div 2)" using h by (subst bitLength.simps) simp
    then have e1: "(2::nat) ^ (bitLength n - 1) = 2 * 2 ^ (bitLength (n div 2) - 1)"
      by (cases "bitLength (n div 2)") (simp_all add: b)
    have e2: "(2::nat) ^ bitLength n = 2 * 2 ^ bitLength (n div 2)" by (simp add: b)
    from ih(1) have "2 * 2 ^ (bitLength (n div 2) - 1) \<le> 2 * (n div 2)" by simp
    also have "\<dots> \<le> n" by simp
    finally have lo: "2 * 2 ^ (bitLength (n div 2) - 1) \<le> n" .
    from ih(2) have "2 * (n div 2) + 2 \<le> 2 * 2 ^ bitLength (n div 2)" by simp
    moreover have "n < 2 * (n div 2) + 2" by presburger
    ultimately have hi: "n < 2 * 2 ^ bitLength (n div 2)" by linarith
    show ?thesis using lo hi unfolding e1 e2 by blast
  qed
qed

lemma pow2_powr: "pow2 e = 2 powr (of_int e)"
  by (simp add: pow2_def powr_real_of_int field_simps)

lemma pow2_pos [simp]: "0 < pow2 e"
  by (simp add: pow2_powr)

lemma pow2_add: "pow2 (a + b) = pow2 a * pow2 b"
  by (simp add: pow2_powr powr_add)

lemma pow2_mono: "a \<le> b \<Longrightarrow> pow2 a \<le> pow2 b"
  by (simp add: pow2_powr)

lemma pow2_less_iff: "pow2 a < pow2 b \<longleftrightarrow> a < b"
  by (simp add: pow2_powr)

lemma pow2_nat: "pow2 (int n) = 2 ^ n"
  by (simp add: pow2_def)

lemma exponent_bounds:
  assumes "0 < x"
  shows "pow2 (exponent x) \<le> x" and "x < pow2 (exponent x + 1)"
proof -
  have "pow2 (exponent x) \<le> x \<and> x < pow2 (exponent x + 1)"
  proof (cases "1 \<le> x")
    case True
    define n where "n = nat \<lfloor>x\<rfloor>"
    have "0 \<le> \<lfloor>x\<rfloor>" "1 \<le> \<lfloor>x\<rfloor>" using True by linarith+
    then have n: "0 < n" "real n \<le> x" "x < real n + 1" by (simp_all add: n_def)
    from bitLength_bounds[OF n(1)] have b: "2 ^ (bitLength n - 1) \<le> n" "n < 2 ^ bitLength n" by simp_all
    have bpos: "0 < bitLength n" using n(1) by (subst bitLength.simps) simp
    have e: "exponent x = int (bitLength n - 1)" using True bpos by (simp add: exponent_def n_def)
    have "n + 1 \<le> 2 ^ bitLength n" using b(2) by simp
    then have "real (n + 1) \<le> real (2 ^ bitLength n)" by (rule of_nat_mono)
    then have hi: "real n + 1 \<le> 2 ^ bitLength n" by simp
    have "real (2 ^ (bitLength n - 1)) \<le> real n" using b(1) by (rule of_nat_mono)
    then have lo: "(2::real) ^ (bitLength n - 1) \<le> real n" by simp
    have "exponent x + 1 = int (bitLength n)" using e bpos by simp
    then have p_hi: "pow2 (exponent x + 1) = 2 ^ bitLength n" by (simp only: pow2_nat)
    have p_lo: "pow2 (exponent x) = 2 ^ (bitLength n - 1)" by (simp only: e pow2_nat)
    show ?thesis using n lo hi unfolding p_lo p_hi by linarith
  next
    case False
    define y where "y = 1 / x"
    define m where "m = nat \<lceil>y\<rceil>"
    have y: "1 < y" using False assms by (simp add: y_def)
    have "2 \<le> \<lceil>y\<rceil>" using y by linarith
    then have m: "2 \<le> m" "y \<le> real m" "real m - 1 < y" by (simp_all add: m_def) linarith+
    define c where "c = bitLength (m - 1)"
    have m1: "0 < m - 1" using m(1) by simp
    from bitLength_bounds[OF m1] have b: "2 ^ (c - 1) \<le> m - 1" "m - 1 < 2 ^ c" by (simp_all add: c_def)
    have cpos: "0 < c" using m1 unfolding c_def by (subst bitLength.simps) simp
    have e: "exponent x = - int c" using False by (simp add: exponent_def c_def m_def y_def)
    have "m \<le> 2 ^ c" using b(2) m(1) by simp
    then have "real m \<le> real (2 ^ c)" by (rule of_nat_mono)
    then have "real m \<le> 2 ^ c" by simp
    then have "y \<le> 2 ^ c" using m(2) by linarith
    then have lo: "1 / 2 ^ c \<le> x" using assms by (simp add: y_def field_simps)
    have "real (2 ^ (c - 1)) \<le> real (m - 1)" using b(1) by (rule of_nat_mono)
    then have "(2::real) ^ (c - 1) \<le> real (m - 1)" by simp
    then have "(2::real) ^ (c - 1) < y" using m(1,3) by (simp add: of_nat_diff)
    then have hi: "x < 1 / 2 ^ (c - 1)" using assms by (simp add: y_def field_simps)
    have p1: "pow2 (- int c) = 1 / 2 ^ c" using cpos by (simp add: pow2_def)
    have p2: "pow2 (- int c + 1) = 1 / 2 ^ (c - 1)"
    proof (cases "c = 1")
      case True then show ?thesis by (simp add: pow2_def)
    next
      case False
      then have "- int c + 1 < 0" "nat (int c - 1) = c - 1" using cpos by simp_all
      then show ?thesis by (simp add: pow2_def)
    qed
    show ?thesis using lo hi unfolding e p1 p2 by blast
  qed
  then show "pow2 (exponent x) \<le> x" and "x < pow2 (exponent x + 1)" by simp_all
qed

lemma roundHalfEven_error: "\<bar>of_int (roundHalfEven y) - y\<bar> \<le> 1 / 2"
  unfolding roundHalfEven_def Let_def by (auto; linarith)

lemma roundHalfEven_nonneg: "0 \<le> y \<Longrightarrow> 0 \<le> roundHalfEven y"
  unfolding roundHalfEven_def Let_def by (auto; linarith)

lemma roundHalfEven_nonpos: "y \<le> 0 \<Longrightarrow> roundHalfEven y \<le> 0"
  unfolding roundHalfEven_def Let_def by (auto; linarith)

lemma roundHalfEven_le: "y \<le> of_int N \<Longrightarrow> roundHalfEven y \<le> N"
  unfolding roundHalfEven_def Let_def by (auto; linarith)

lemma roundHalfEven_ge: "of_int N \<le> y \<Longrightarrow> N \<le> roundHalfEven y"
  unfolding roundHalfEven_def Let_def by (auto; linarith)


lemma pow2_53: "pow2 (e + 1) = 2 ^ 53 * pow2 (e - 52)"
proof -
  have "e + 1 = 53 + (e - 52)" by simp
  then have "pow2 (e + 1) = pow2 (53 + (e - 52))" by (rule arg_cong)
  also have "\<dots> = pow2 53 * pow2 (e - 52)" by (rule pow2_add)
  also have "pow2 53 = 2 ^ 53" by (simp add: pow2_def)
  finally show ?thesis .
qed

lemma round64_nonneg:
  assumes "0 \<le> x"
  shows "round64 x = PosInfinity \<or> (\<exists>r. round64 x = Finite r \<and> 0 \<le> r)"
proof (cases "x = 0")
  case True
  then show ?thesis by (simp add: round64_def)
next
  case False
  define ulp where "ulp = pow2 (max (exponent \<bar>x\<bar>) (- 1022) - 52)"
  define r where "r = of_int (roundHalfEven (x / ulp)) * ulp"
  have "0 < ulp" by (simp add: ulp_def)
  then have "0 \<le> x / ulp" using assms by simp
  then have "0 \<le> roundHalfEven (x / ulp)" by (rule roundHalfEven_nonneg)
  then have r0: "0 \<le> r" using \<open>0 < ulp\<close> by (simp add: r_def)
  have "\<not> r \<le> - pow2 1024" using r0 pow2_pos[of 1024] by linarith
  moreover have "round64 x = (if pow2 1024 \<le> r then PosInfinity
           else if r \<le> - pow2 1024 then NegInfinity else Finite r)"
    using False by (simp add: round64_def Let_def r_def ulp_def)
  ultimately show ?thesis using r0 by auto
qed

lemma roundHalfEven_le_half: "y < of_int N + 1 / 2 \<Longrightarrow> roundHalfEven y \<le> N"
  unfolding roundHalfEven_def Let_def by (auto; linarith)

lemma roundHalfEven_ge_half: "of_int N - 1 / 2 < y \<Longrightarrow> N \<le> roundHalfEven y"
  unfolding roundHalfEven_def Let_def by (auto; linarith)

lemma round64_finite:
  assumes "\<bar>x\<bar> < pow2 1024 - pow2 970"
  shows "\<exists>r. round64 x = Finite r \<and> \<bar>r - x\<bar> \<le> max (\<bar>x\<bar> / 2 ^ 53) (1 / 2 ^ 1075)
           \<and> (0 \<le> x \<longrightarrow> 0 \<le> r) \<and> (x \<le> 0 \<longrightarrow> r \<le> 0)"
proof (cases "x = 0")
  case True
  then show ?thesis by (simp add: round64_def)
next
  case False
  define e0 where "e0 = exponent \<bar>x\<bar>"
  define e where "e = max e0 (- 1022)"
  define ulp where "ulp = pow2 (e - 52)"
  define n where "n = roundHalfEven (x / ulp)"
  define r where "r = of_int n * ulp"
  have ax: "0 < \<bar>x\<bar>" using False by simp
  have eb: "pow2 e0 \<le> \<bar>x\<bar>" "\<bar>x\<bar> < pow2 (e0 + 1)"
    using exponent_bounds[OF ax] by (simp_all add: e0_def)
  have "pow2 e0 < pow2 1024" using eb(1) assms pow2_pos[of 970] by linarith
  then have "e0 < 1024" by (simp only: pow2_less_iff)
  then have ele: "e \<le> 1023" by (simp add: e_def)
  have upos: "0 < ulp" by (simp add: ulp_def)
  have "pow2 (e0 + 1) \<le> pow2 (e + 1)" by (rule pow2_mono) (simp add: e_def)
  then have xlt: "\<bar>x\<bar> < pow2 (e + 1)" using eb(2) by linarith
  have pe: "pow2 (e + 1) = 2 ^ 53 * ulp" unfolding ulp_def by (rule pow2_53)
  have rb: "\<bar>r\<bar> < pow2 1024"
  proof (cases "e = 1023")
    case True
    have u: "ulp = pow2 971" by (simp add: ulp_def True)
    have p1: "pow2 1024 = 2 ^ 53 * pow2 971" using pow2_53[of 1023] by simp
    have p2: "pow2 971 = 2 * pow2 970" using pow2_add[of 1 970] by (simp add: pow2_def)
    have "\<bar>x\<bar> < (2 ^ 53 - 1 / 2) * ulp" using assms unfolding p1 u p2 by (simp add: algebra_simps)
    then have "\<bar>x\<bar> / ulp < 2 ^ 53 - 1 / 2" using upos by (simp add: field_simps)
    moreover have "\<bar>x / ulp\<bar> = \<bar>x\<bar> / ulp" using upos by simp
    ultimately have yb': "\<bar>x / ulp\<bar> < 2 ^ 53 - 1 / 2" by (simp only:)
    have c1: "x / ulp < 2 ^ 53 - 1 / 2" and c2: "- (2 ^ 53 - 1 / 2) < x / ulp"
      using yb' by linarith+
    have "n \<le> 2 ^ 53 - 1" unfolding n_def by (rule roundHalfEven_le_half) (use c1 in simp)
    moreover have "- (2 ^ 53 - 1) \<le> n"
      unfolding n_def by (rule roundHalfEven_ge_half) (use c2 in simp)
    ultimately have "real_of_int n \<le> 2 ^ 53 - 1" "- (2 ^ 53 - 1) \<le> real_of_int n"
      by (simp_all add: of_int_le_iff[symmetric] del: of_int_le_iff)
    then have "\<bar>real_of_int n\<bar> \<le> 2 ^ 53 - 1" by linarith
    then have "\<bar>real_of_int n\<bar> * ulp \<le> (2 ^ 53 - 1) * ulp" using upos by (simp add: mult_right_mono)
    moreover have "\<bar>r\<bar> = \<bar>real_of_int n\<bar> * ulp" using upos by (simp add: r_def abs_mult)
    moreover have "(2 ^ 53 - 1) * ulp < 2 ^ 53 * ulp" using upos by simp
    ultimately show ?thesis unfolding p1 u by linarith
  next
    case False
    then have e2: "e + 1 \<le> 1023" using ele by simp
    have "\<bar>x / ulp\<bar> = \<bar>x\<bar> / ulp" using upos by simp
    also have "\<dots> < 2 ^ 53"
    proof -
      have "\<bar>x\<bar> < 2 ^ 53 * ulp" using xlt unfolding pe .
      then show ?thesis using upos by (simp add: field_simps)
    qed
    finally have yb: "\<bar>x / ulp\<bar> < 2 ^ 53" .
    have "x / ulp \<le> 2 ^ 53" "- (2 ^ 53) \<le> x / ulp" using yb by linarith+
    then have y: "x / ulp \<le> of_int (2 ^ 53)" "of_int (- (2 ^ 53)) \<le> x / ulp" by simp_all
    have "n \<le> 2 ^ 53" unfolding n_def using y(1) by (rule roundHalfEven_le)
    moreover have "- (2 ^ 53) \<le> n" unfolding n_def using y(2) by (rule roundHalfEven_ge)
    ultimately have "real_of_int n \<le> 2 ^ 53" "- (2 ^ 53) \<le> real_of_int n"
      by (simp_all add: of_int_le_iff[symmetric] del: of_int_le_iff)
    then have nb: "\<bar>real_of_int n\<bar> \<le> 2 ^ 53" by linarith
    have "\<bar>r\<bar> = \<bar>real_of_int n\<bar> * ulp" using upos by (simp add: r_def abs_mult)
    also have "\<dots> \<le> 2 ^ 53 * ulp" using nb upos by simp
    also have "\<dots> = pow2 (e + 1)" by (simp only: pe)
    also have "\<dots> \<le> pow2 1023" using e2 by (rule pow2_mono)
    also have "\<dots> < pow2 1024" by (simp add: pow2_less_iff)
    finally show ?thesis .
  qed
  have "round64 x = (if pow2 1024 \<le> r then PosInfinity
           else if r \<le> - pow2 1024 then NegInfinity else Finite r)"
    using False by (simp add: round64_def Let_def r_def n_def ulp_def e_def e0_def)
  then have fin: "round64 x = Finite r" using rb by auto
  have "r - x = (real_of_int n - x / ulp) * ulp" using upos by (simp add: r_def field_simps)
  then have "\<bar>r - x\<bar> = \<bar>real_of_int n - x / ulp\<bar> * ulp" using upos by (simp add: abs_mult)
  also have "\<dots> \<le> (1 / 2) * ulp"
    using roundHalfEven_error[of "x / ulp"] upos unfolding n_def
    by (intro mult_right_mono) simp_all
  finally have err: "\<bar>r - x\<bar> \<le> ulp / 2" by simp
  have "ulp / 2 \<le> max (\<bar>x\<bar> / 2 ^ 53) (1 / 2 ^ 1075)"
  proof (cases "- 1022 \<le> e0")
    case True
    then have "e = e0" by (simp add: e_def)
    then have "pow2 (e0 + 1) = 2 ^ 53 * ulp" using pe by simp
    moreover have "pow2 (e0 + 1) = pow2 1 * pow2 e0" using pow2_add[of 1 e0] by (simp add: add.commute)
    moreover have "pow2 1 = 2" by (simp add: pow2_def)
    ultimately have "ulp / 2 = pow2 e0 / 2 ^ 53" by simp
    also have "\<dots> \<le> \<bar>x\<bar> / 2 ^ 53" using eb(1) by (simp add: divide_right_mono)
    finally show ?thesis by simp
  next
    case False
    then have "e = - 1022" by (simp add: e_def)
    then have "ulp = 1 / 2 ^ 1074" by (simp add: ulp_def pow2_def)
    then have "ulp / 2 = 1 / 2 ^ 1075" by simp
    then show ?thesis by simp
  qed
  with err have e1: "\<bar>r - x\<bar> \<le> max (\<bar>x\<bar> / 2 ^ 53) (1 / 2 ^ 1075)" by linarith
  have s1: "0 \<le> r" if "0 \<le> x"
  proof -
    have "0 \<le> x / ulp" using that upos by simp
    then have "0 \<le> n" unfolding n_def by (rule roundHalfEven_nonneg)
    then show ?thesis using upos by (simp add: r_def)
  qed
  have s2: "r \<le> 0" if "x \<le> 0"
  proof -
    have "x / ulp \<le> 0" using that upos by (simp add: divide_nonpos_pos)
    then have "n \<le> 0" unfolding n_def by (rule roundHalfEven_nonpos)
    then show ?thesis using upos by (simp add: r_def mult_nonpos_nonneg)
  qed
  show ?thesis using fin e1 s1 s2 by blast
qed

lemma max_value_room: "MAX_VALUE + 1 / 4 < pow2 1024 - pow2 970"
  by (simp add: MAX_VALUE_def pow2_def)

text \<open>Unfolding these evaluates \<^const>\<open>round64\<close> at a given rational number.\<close>

lemmas round64_eval = round64_def exponent_def bitLength.simps pow2_def roundHalfEven_def Let_def

lemma default_step: "defaultFixedTimeStep = Finite (4803839602528529 / 2 ^ 58)"
  by (simp add: defaultFixedTimeStep_def round64_eval)

text \<open>
  Some values: a tenth; ties at \<open>2^53\<close>, where the spacing is 2, go to the even multiple;
  half of the least positive number goes to 0; the largest finite number stays, and half
  a spacing above it the result is an infinity.
\<close>

lemma round64_examples:
  "round64 (1 / 10) = Finite (3602879701896397 / 2 ^ 55)"
  "round64 (2 ^ 53 + 1) = Finite (2 ^ 53)"
  "round64 (2 ^ 53 + 3) = Finite (2 ^ 53 + 4)"
  "round64 (1 / 2 ^ 1075) = Finite 0"
  "round64 (3 / 2 ^ 1075) = Finite (1 / 2 ^ 1073)"
  "round64 MAX_VALUE = Finite MAX_VALUE"
  "round64 (MAX_VALUE + 2 ^ 970) = PosInfinity"
  by (simp_all add: round64_eval MAX_VALUE_def)

subsection \<open>World\<close>

lemmas world_eval = World_def World_update_def num_eq_def processEntityQueue_def Let_def
  fixedTick_def fixedTickCalls_def variableTickCalls_def rawDelta_def cappedDelta_def

text \<open>
  The capped delta of a frame whose time is not before the previous one is a finite
  number between 0 and a quarter of a second, also when the difference of the two times
  overflows.
\<close>

lemma capped_delta:
  assumes "l \<le> t"
  shows "\<exists>d. cappedDelta (Finite l) (Finite t) = Finite d \<and> 0 \<le> d \<and> d \<le> 1/4"
proof -
  have "0 \<le> t - l" using assms by simp
  from round64_nonneg[OF this] show ?thesis
  proof
    assume "round64 (t - l) = PosInfinity"
    then show ?thesis by (intro exI[of _ "1/4"]) (simp add: cappedDelta_def rawDelta_def)
  next
    assume "\<exists>r. round64 (t - l) = Finite r \<and> 0 \<le> r"
    then obtain r where r: "round64 (t - l) = Finite r" "0 \<le> r" by blast
    then have "0 \<le> r / 1000" by simp
    from round64_nonneg[OF this] show ?thesis
    proof
      assume "round64 (r / 1000) = PosInfinity"
      then show ?thesis using r by (intro exI[of _ "1/4"]) (simp add: cappedDelta_def rawDelta_def)
    next
      assume "\<exists>q. round64 (r / 1000) = Finite q \<and> 0 \<le> q"
      then obtain q where "round64 (r / 1000) = Finite q" "0 \<le> q" by blast
      then show ?thesis using r by (simp add: cappedDelta_def rawDelta_def)
    qed
  qed
qed

text \<open>
  The two operations on the accumulator, on the values that occur in a run: the sum of an
  accumulator below the step and a capped delta, and the difference of an accumulator and
  a step that it has reached. Neither result overflows, and rounding moves it by at most
  \<^const>\<open>roundingError\<close>, which is at most half a step when the step is at least \<open>2^-53\<close>.
\<close>

lemma roundingError_le:
  assumes "1 / 2 ^ 53 \<le> s"
  shows "roundingError s \<le> s / 2" and "1 / 2 ^ 1075 \<le> roundingError s" and "0 < s"
proof -
  have p: "(0::real) < 1 / 2 ^ 53" by simp
  with assms show s: "0 < s" by linarith
  have "s / 2 ^ 53 \<le> s / 4" using s by (simp add: field_simps)
  moreover have "(1/4) / 2 ^ 53 \<le> s / 4" using assms by (simp add: field_simps)
  ultimately show "roundingError s \<le> s / 2" by (simp add: roundingError_def add_divide_distrib)
  have "(1::real) / 2 ^ 1075 \<le> (1/4) / 2 ^ 53" by simp
  also have "\<dots> \<le> roundingError s" using s by (simp add: roundingError_def divide_right_mono)
  finally show "1 / 2 ^ 1075 \<le> roundingError s" .
qed

lemma add_rounded:
  assumes "1 / 2 ^ 53 \<le> s" and "s \<le> MAX_VALUE" and "0 \<le> a" and "a < s" and "0 \<le> d" and "d \<le> 1/4"
  shows "\<exists>a'. num_add (Finite a) (Finite d) = Finite a' \<and> 0 \<le> a'
           \<and> \<bar>a' - (a + d)\<bar> \<le> roundingError s"
proof -
  have "\<bar>a + d\<bar> < pow2 1024 - pow2 970" using assms max_value_room by linarith
  from round64_finite[OF this] obtain r where r: "round64 (a + d) = Finite r"
    "\<bar>r - (a + d)\<bar> \<le> max (\<bar>a + d\<bar> / 2 ^ 53) (1 / 2 ^ 1075)" "0 \<le> a + d \<longrightarrow> 0 \<le> r" by blast
  have "\<bar>a + d\<bar> \<le> s + 1/4" using assms by linarith
  then have "\<bar>a + d\<bar> / 2 ^ 53 \<le> roundingError s"
    unfolding roundingError_def by (rule divide_right_mono) simp
  with roundingError_le(2)[OF assms(1)] r(2) have "\<bar>r - (a + d)\<bar> \<le> roundingError s" by linarith
  moreover have "0 \<le> r" using r(3) assms by simp
  ultimately show ?thesis using r(1) by simp
qed

lemma sub_rounded:
  assumes "1 / 2 ^ 53 \<le> s" and "s \<le> MAX_VALUE" and "s \<le> a" and "a \<le> 2 * s + 1/4"
  shows "\<exists>a'. num_sub (Finite a) (Finite s) = Finite a' \<and> 0 \<le> a' \<and> a' \<le> a - s / 2
           \<and> \<bar>a' - (a - s)\<bar> \<le> roundingError s"
proof -
  have "\<bar>a - s\<bar> < pow2 1024 - pow2 970" using assms max_value_room by linarith
  from round64_finite[OF this] obtain r where r: "round64 (a - s) = Finite r"
    "\<bar>r - (a - s)\<bar> \<le> max (\<bar>a - s\<bar> / 2 ^ 53) (1 / 2 ^ 1075)" "0 \<le> a - s \<longrightarrow> 0 \<le> r" by blast
  have "\<bar>a - s\<bar> \<le> s + 1/4" using assms by linarith
  then have "\<bar>a - s\<bar> / 2 ^ 53 \<le> roundingError s"
    unfolding roundingError_def by (rule divide_right_mono) simp
  with roundingError_le(2)[OF assms(1)] r(2) have e: "\<bar>r - (a - s)\<bar> \<le> roundingError s" by linarith
  moreover have "0 \<le> r" using r(3) assms by simp
  moreover have "r \<le> a - s / 2" using e roundingError_le(1)[OF assms(1)] by linarith
  ultimately show ?thesis using r(1) by simp
qed

text \<open>
  So every pass through the loop lowers the accumulator by at least half a step, and the
  loop ends: after \<open>n\<close> ticks the accumulator is below the step, not negative, and away
  from its exact value by at most \<open>n\<close> rounding errors.
\<close>

lemma loop_exit: "\<not> num_ge (accumulator w) (fixedTimeStep w) \<Longrightarrow> fixedUpdateLoop w = Some w"
  by (subst fixedUpdateLoop.simps) simp

lemma loop_step:
  "num_ge (accumulator w) (fixedTimeStep w) \<Longrightarrow> fixedUpdateLoop w = fixedUpdateLoop (fixedTick w)"
  by (subst fixedUpdateLoop.simps) simp

lemma concat_replicate_snoc: "concat (replicate n xs) @ xs = xs @ concat (replicate n xs)"
  by (induction n) simp_all

lemma loop_terminates:
  assumes "fixedTimeStep w = Finite s" and "accumulator w = Finite a"
    and "1 / 2 ^ 53 \<le> s" and "s \<le> MAX_VALUE" and "0 \<le> a" and "a \<le> 2 * s + 1/4"
  shows "\<exists>n a'. fixedUpdateLoop w =
             Some (w\<lparr>calls := calls w @ concat (replicate n (fixedTickCalls w)),
                     fixedTicks := fixedTicks w + n, accumulator := Finite a'\<rparr>)
           \<and> 0 \<le> a' \<and> a' < s \<and> \<bar>a' - (a - real n * s)\<bar> \<le> real n * roundingError s"
  using assms
proof (induction "nat \<lfloor>2 * a / s\<rfloor>" arbitrary: w a rule: less_induct)
  case less
  have spos: "0 < s" using roundingError_le(3)[OF less.prems(3)] .
  show ?case
  proof (cases "a < s")
    case True
    then have "fixedUpdateLoop w = Some w" using less.prems(1,2) by (simp add: loop_exit)
    moreover have "w = w\<lparr>calls := calls w @ concat (replicate 0 (fixedTickCalls w)),
                     fixedTicks := fixedTicks w + 0, accumulator := Finite a\<rparr>"
      using less.prems(2) by simp
    ultimately have "fixedUpdateLoop w =
             Some (w\<lparr>calls := calls w @ concat (replicate 0 (fixedTickCalls w)),
                     fixedTicks := fixedTicks w + 0, accumulator := Finite a\<rparr>)" by simp
    then show ?thesis using True less.prems(5) by (intro exI[of _ 0] exI[of _ a]) simp
  next
    case False
    then have ge: "s \<le> a" by simp
    from sub_rounded[OF less.prems(3,4) ge less.prems(6)] obtain b where b:
      "num_sub (Finite a) (Finite s) = Finite b" "0 \<le> b" "b \<le> a - s / 2"
      "\<bar>b - (a - s)\<bar> \<le> roundingError s" by blast
    let ?w = "fixedTick w"
    have fts: "fixedTimeStep ?w = Finite s" and acc: "accumulator ?w = Finite b"
      using less.prems(1,2) b(1) by (simp_all add: fixedTick_def)
    have "2 * b / s \<le> 2 * a / s - 1" using b(3) spos by (simp add: field_simps)
    moreover have "1 \<le> 2 * a / s" using ge spos by (simp add: field_simps)
    then have "1 \<le> \<lfloor>2 * a / s\<rfloor>" by linarith
    ultimately have m: "nat \<lfloor>2 * b / s\<rfloor> < nat \<lfloor>2 * a / s\<rfloor>" by linarith
    have b6: "b \<le> 2 * s + 1/4" using b(3) less.prems(6) spos by linarith
    from less.hyps[OF m fts acc less.prems(3,4) b(2) b6]
    obtain n a' where n: "fixedUpdateLoop ?w =
             Some (?w\<lparr>calls := calls ?w @ concat (replicate n (fixedTickCalls ?w)),
                     fixedTicks := fixedTicks ?w + n, accumulator := Finite a'\<rparr>)"
      "0 \<le> a'" "a' < s" "\<bar>a' - (b - real n * s)\<bar> \<le> real n * roundingError s" by blast
    have "fixedUpdateLoop w = fixedUpdateLoop ?w"
      using ge less.prems(1,2) by (simp add: loop_step)
    also have "\<dots> = Some (w\<lparr>calls := calls w @ concat (replicate (Suc n) (fixedTickCalls w)),
                     fixedTicks := fixedTicks w + Suc n, accumulator := Finite a'\<rparr>)"
      unfolding n(1) by (simp add: fixedTick_def fixedTickCalls_def concat_replicate_snoc)
    finally have r: "fixedUpdateLoop w =
        Some (w\<lparr>calls := calls w @ concat (replicate (Suc n) (fixedTickCalls w)),
                     fixedTicks := fixedTicks w + Suc n, accumulator := Finite a'\<rparr>)" .
    have "\<bar>a' - (a - real (Suc n) * s)\<bar> \<le> \<bar>a' - (b - real n * s)\<bar> + \<bar>b - (a - s)\<bar>"
      by (simp add: algebra_simps)
    also have "\<dots> \<le> real n * roundingError s + roundingError s" using n(4) b(4) by linarith
    also have "\<dots> = real (Suc n) * roundingError s" by (simp add: algebra_simps)
    finally have "\<bar>a' - (a - real (Suc n) * s)\<bar> \<le> real (Suc n) * roundingError s" .
    with r n(2,3) show ?thesis by blast
  qed
qed


text \<open>
  The loop, once entered, never ends when the subtraction leaves the accumulator as it
  is, and neither does the \<open>update\<close> call around it. That is so for a step of zero, and
  for a positive step that is lost in the rounding: a quarter of a second minus \<open>2^-56\<close>
  seconds rounds back to a quarter of a second.
\<close>

lemma loop_never_returns:
  assumes "num_ge (accumulator w) (fixedTimeStep w)"
    and "num_sub (accumulator w) (fixedTimeStep w) = accumulator w"
  shows "fixedUpdateLoop w = None"
proof (cases "fixedUpdateLoop w")
  case None
  then show ?thesis .
next
  case (Some y)
  have "\<not> (num_ge (accumulator w) (fixedTimeStep w)
            \<and> num_sub (accumulator w) (fixedTimeStep w) = accumulator w)"
  proof (rule fixedUpdateLoop.raw_induct
           [where P = "\<lambda>x y. \<not> (num_ge (accumulator x) (fixedTimeStep x)
                                  \<and> num_sub (accumulator x) (fixedTimeStep x) = accumulator x)"
              and w = w and y = y])
    show "fixedUpdateLoop w = Some y" by (rule Some)
  next
    fix loop :: "world \<Rightarrow> world option" and x z
    assume ih: "\<And>x y. loop x = Some y
                  \<Longrightarrow> \<not> (num_ge (accumulator x) (fixedTimeStep x)
                           \<and> num_sub (accumulator x) (fixedTimeStep x) = accumulator x)"
      and eq: "(if num_ge (accumulator x) (fixedTimeStep x) then loop (fixedTick x) else Some x)
                 = Some z"
    show "\<not> (num_ge (accumulator x) (fixedTimeStep x)
              \<and> num_sub (accumulator x) (fixedTimeStep x) = accumulator x)"
    proof (cases "num_ge (accumulator x) (fixedTimeStep x)")
      case True
      with eq have "loop (fixedTick x) = Some z" by simp
      from ih[OF this] True show ?thesis by (auto simp: fixedTick_def)
    next
      case False
      then show ?thesis by simp
    qed
  qed
  with assms show ?thesis by simp
qed

lemma zero_step_never_returns:
  "World_updates [Finite 1000, Finite 1016] (World (Finite 0)) = None"
  by (simp add: world_eval loop_never_returns round64_eval)

lemma tiny_step_never_returns:
  "World_updates [Finite 1000, Finite 1250] (World (Finite (1 / 2 ^ 56))) = None"
  by (simp add: world_eval loop_never_returns round64_eval)

text \<open>A frame time before the previous one drives the accumulator below zero.\<close>

lemma backwards_clock:
  "map_option accumulator (World_updates [Finite 1000, Finite 500] (World defaultFixedTimeStep))
     = Some (Finite (- (1/2)))"
  by (simp add: default_step world_eval fixedUpdateLoop.simps round64_eval)

text \<open>Draining the entity queue leaves the timing fields and the systems alone.\<close>

lemma removeMarked_frame:
  "fixedTimeStep (removeMarked xs w) = fixedTimeStep w"
  "accumulator (removeMarked xs w) = accumulator w"
  "fixedTicks (removeMarked xs w) = fixedTicks w"
  "lastFixedUpdateTime (removeMarked xs w) = lastFixedUpdateTime w"
  "systems (removeMarked xs w) = systems w"
  by (induction xs arbitrary: w) simp_all

lemma processEntityQueue_frame:
  "fixedTimeStep (processEntityQueue w) = fixedTimeStep w"
  "accumulator (processEntityQueue w) = accumulator w"
  "fixedTicks (processEntityQueue w) = fixedTicks w"
  "lastFixedUpdateTime (processEntityQueue w) = lastFixedUpdateTime w"
  "systems (processEntityQueue w) = systems w"
  by (simp_all add: processEntityQueue_def Let_def removeMarked_frame)

text \<open>
  One call of \<open>update\<close>: a call that finds \<open>lastFixedUpdateTime\<close> at 0 only records the
  time; any other call, at a time that is not before the previous one, drains the queue,
  adds the capped delta, runs the fixed ticks and then the variable tick with the capped
  delta.
\<close>

lemma update_first:
  "lastFixedUpdateTime w = Finite 0 \<Longrightarrow> World_update t w = Some (w\<lparr>lastFixedUpdateTime := t\<rparr>)"
  by (simp add: World_update_def num_eq_def)

lemma update_later:
  assumes "lastFixedUpdateTime w = Finite l" and "l \<noteq> 0" and "l \<le> t"
    and "fixedTimeStep w = Finite s" and "1 / 2 ^ 53 \<le> s" and "s \<le> MAX_VALUE"
    and "accumulator w = Finite a" and "0 \<le> a" and "a < s"
  defines "q \<equiv> processEntityQueue (w\<lparr>lastFixedUpdateTime := Finite t\<rparr>)"
  shows "\<exists>d n a'. cappedDelta (Finite l) (Finite t) = Finite d \<and> 0 \<le> d \<and> d \<le> 1/4
           \<and> World_update (Finite t) w =
                Some (q\<lparr>accumulator := Finite a',
                        fixedTicks := fixedTicks w + n,
                        calls := calls q @ concat (replicate n (fixedTickCalls q))
                                   @ variableTickCalls (Finite d) q\<rparr>)
           \<and> 0 \<le> a' \<and> a' < s
           \<and> \<bar>a' - (a + d - real n * s)\<bar> \<le> real (n + 1) * roundingError s"
proof -
  from capped_delta[OF assms(3)] obtain d where d:
    "cappedDelta (Finite l) (Finite t) = Finite d" "0 \<le> d" "d \<le> 1/4" by blast
  from add_rounded[OF assms(5,6,8,9) d(2,3)] obtain a1 where a1:
    "num_add (Finite a) (Finite d) = Finite a1" "0 \<le> a1" "\<bar>a1 - (a + d)\<bar> \<le> roundingError s"
    by blast
  let ?w3 = "q\<lparr>accumulator := Finite a1\<rparr>"
  have q: "fixedTimeStep q = Finite s" "accumulator q = Finite a" "fixedTicks q = fixedTicks w"
    using assms(4,7) by (simp_all add: q_def processEntityQueue_frame)
  have b: "a1 \<le> 2 * s + 1/4"
    using a1(3) roundingError_le(1,3)[OF assms(5)] assms(9) d(3) by linarith
  have "fixedTimeStep ?w3 = Finite s" "accumulator ?w3 = Finite a1" using q by simp_all
  from loop_terminates[OF this assms(5,6) a1(2) b] obtain n a' where n:
    "fixedUpdateLoop ?w3 =
       Some (?w3\<lparr>calls := calls ?w3 @ concat (replicate n (fixedTickCalls ?w3)),
                   fixedTicks := fixedTicks ?w3 + n, accumulator := Finite a'\<rparr>)"
    "0 \<le> a'" "a' < s" "\<bar>a' - (a1 - real n * s)\<bar> \<le> real n * roundingError s" by blast
  have ne: "\<not> num_eq (lastFixedUpdateTime w) (Finite 0)" using assms(1,2) by (simp add: num_eq_def)
  have "World_update (Finite t) w =
          Some (q\<lparr>accumulator := Finite a',
                  fixedTicks := fixedTicks w + n,
                  calls := calls q @ concat (replicate n (fixedTickCalls q))
                             @ variableTickCalls (Finite d) q\<rparr>)"
    using ne n(1) a1(1) d(1) assms(1) q
    by (simp add: World_update_def Let_def q_def[symmetric] cappedDelta_def rawDelta_def
          fixedTickCalls_def variableTickCalls_def)
  moreover have "\<bar>a' - (a + d - real n * s)\<bar> \<le> \<bar>a' - (a1 - real n * s)\<bar> + \<bar>a1 - (a + d)\<bar>"
    by (simp add: algebra_simps)
  then have "\<bar>a' - (a + d - real n * s)\<bar> \<le> real (n + 1) * roundingError s"
    using n(4) a1(3) by (simp add: algebra_simps)
  ultimately show ?thesis using d n(2,3) by blast
qed

lemma update_effect:
  assumes "lastFixedUpdateTime w = Finite l" and "l \<noteq> 0" and "l \<le> t"
    and "fixedTimeStep w = Finite s" and "1 / 2 ^ 53 \<le> s" and "s \<le> MAX_VALUE"
    and "accumulator w = Finite a" and "0 \<le> a" and "a < s"
  shows "\<exists>w' d n a'. World_update (Finite t) w = Some w'
           \<and> cappedDelta (Finite l) (Finite t) = Finite d \<and> 0 \<le> d \<and> d \<le> 1/4
           \<and> fixedTimeStep w' = Finite s \<and> lastFixedUpdateTime w' = Finite t
           \<and> fixedTicks w' = fixedTicks w + n \<and> accumulator w' = Finite a'
           \<and> 0 \<le> a' \<and> a' < s
           \<and> \<bar>a' - (a + d - real n * s)\<bar> \<le> real (n + 1) * roundingError s"
proof -
  from update_later[OF assms] obtain d n a' where r:
    "cappedDelta (Finite l) (Finite t) = Finite d" "0 \<le> d" "d \<le> 1/4"
    "World_update (Finite t) w =
                Some ((processEntityQueue (w\<lparr>lastFixedUpdateTime := Finite t\<rparr>))
                       \<lparr>accumulator := Finite a',
                        fixedTicks := fixedTicks w + n,
                        calls := calls (processEntityQueue (w\<lparr>lastFixedUpdateTime := Finite t\<rparr>))
                           @ concat (replicate n (fixedTickCalls (processEntityQueue (w\<lparr>lastFixedUpdateTime := Finite t\<rparr>))))
                           @ variableTickCalls (Finite d) (processEntityQueue (w\<lparr>lastFixedUpdateTime := Finite t\<rparr>))\<rparr>)"
    "0 \<le> a'" "a' < s" "\<bar>a' - (a + d - real n * s)\<bar> \<le> real (n + 1) * roundingError s"
    by blast
  show ?thesis
    apply (rule exI[of _ "the (World_update (Finite t) w)"], rule exI[of _ d], rule exI[of _ n],
           rule exI[of _ a'])
    using r assms(4) by (simp add: processEntityQueue_frame)
qed

text \<open>A run of calls after the baseline call.\<close>

lemma run_conservation:
  assumes "1 / 2 ^ 53 \<le> s" and "s \<le> MAX_VALUE" and "fixedTimeStep w = Finite s"
    and "lastFixedUpdateTime w = Finite l" and "0 < l" and "sorted (l # ts)"
    and "accumulator w = Finite a" and "0 \<le> a" and "a < s"
  shows "\<exists>w' ds n a'. World_updates (map Finite ts) w = Some w'
           \<and> cappedDeltas (Finite l) (map Finite ts) = map Finite ds
           \<and> (\<forall>d \<in> set ds. 0 \<le> d \<and> d \<le> 1/4)
           \<and> fixedTimeStep w' = Finite s \<and> fixedTicks w' = fixedTicks w + n
           \<and> accumulator w' = Finite a' \<and> 0 \<le> a' \<and> a' < s
           \<and> \<bar>a + sum_list ds - (real n * s + a')\<bar> \<le> real (n + length ts) * roundingError s"
  using assms(3-)
proof (induction ts arbitrary: w l a)
  case Nil
  show ?case
    apply (rule exI[of _ w], rule exI[of _ "[]"], rule exI[of _ 0], rule exI[of _ a])
    using Nil by simp
next
  case (Cons t ts)
  have le: "l \<le> t" and st: "sorted (t # ts)" using Cons.prems(4) by simp_all
  have l0: "l \<noteq> 0" using Cons.prems(3) by simp
  from update_effect[OF Cons.prems(2) l0 le Cons.prems(1) assms(1,2) Cons.prems(5,6,7)]
  obtain w1 d n1 a1 where w1: "World_update (Finite t) w = Some w1"
    "cappedDelta (Finite l) (Finite t) = Finite d" "0 \<le> d" "d \<le> 1/4"
    "fixedTimeStep w1 = Finite s" "lastFixedUpdateTime w1 = Finite t"
    "fixedTicks w1 = fixedTicks w + n1" "accumulator w1 = Finite a1" "0 \<le> a1" "a1 < s"
    "\<bar>a1 - (a + d - real n1 * s)\<bar> \<le> real (n1 + 1) * roundingError s" by blast
  have t0: "0 < t" using le Cons.prems(3) by simp
  from Cons.IH[OF w1(5) w1(6) t0 st w1(8,9,10)]
  obtain w' ds n a' where w': "World_updates (map Finite ts) w1 = Some w'"
    "cappedDeltas (Finite t) (map Finite ts) = map Finite ds"
    "\<forall>d \<in> set ds. 0 \<le> d \<and> d \<le> 1/4"
    "fixedTimeStep w' = Finite s" "fixedTicks w' = fixedTicks w1 + n"
    "accumulator w' = Finite a'" "0 \<le> a'" "a' < s"
    "\<bar>a1 + sum_list ds - (real n * s + a')\<bar> \<le> real (n + length ts) * roundingError s" by blast
  have "\<bar>a + sum_list (d # ds) - (real (n1 + n) * s + a')\<bar>
          \<le> \<bar>a1 + sum_list ds - (real n * s + a')\<bar> + \<bar>a1 - (a + d - real n1 * s)\<bar>"
    by (simp add: algebra_simps)
  also have "\<dots> \<le> real (n + length ts) * roundingError s + real (n1 + 1) * roundingError s"
    using w'(9) w1(11) by linarith
  also have "\<dots> = real (n1 + n + length (t # ts)) * roundingError s" by (simp add: algebra_simps)
  finally have e: "\<bar>a + sum_list (d # ds) - (real (n1 + n) * s + a')\<bar>
                     \<le> real (n1 + n + length (t # ts)) * roundingError s" .
  show ?case
    apply (rule exI[of _ w'], rule exI[of _ "d # ds"], rule exI[of _ "n1 + n"], rule exI[of _ a'])
    using w1 w' e by simp
qed

lemma take_sorted: "sorted (t0 # ts) \<Longrightarrow> sorted (t0 # take k ts)"
  by (metis sorted_wrt_take take_Suc_Cons)

text \<open>
  C1. Accumulator conservation, for the deltas as capped and up to the rounding of the
  accumulator. Take a world on which \<open>update\<close> has not run yet, with accumulator 0 and a
  fixed step \<open>s\<close> of at least \<open>2^-53\<close> seconds (and at most the largest finite number), and
  frame times \<open>t0 \<le> t1 \<le> \<dots>\<close> with \<open>0 < t0\<close>, so that every per-frame delta is non-negative. Then every \<open>update\<close> call
  of the run returns, and after each of them the accumulator \<open>a\<close> lies in \<open>[0, s)\<close>. With
  \<open>n\<close> the number of fixed ticks executed so far, \<open>k\<close> the number of calls after the
  baseline call and \<open>D\<close> the sum of the capped deltas that these calls have computed (each
  between 0 and 0.25 s), \<open>n \<times> s + a\<close> differs from \<open>D\<close> by at most \<open>n + k\<close> rounding errors of
  \<open>(s + 1/4) / 2^53\<close>, one for each addition to and each subtraction from the accumulator.
  So \<open>n \<times> s \<le> D < (n + 1) \<times> s\<close> holds up to that error.
\<close>

theorem accumulator_conservation:
  assumes "1 / 2 ^ 53 \<le> s" and "s \<le> MAX_VALUE" and "fixedTimeStep w = Finite s"
    and "lastFixedUpdateTime w = Finite 0" and "accumulator w = Finite 0"
    and "0 < t0" and "sorted (t0 # ts)"
  shows "\<forall>k \<le> length ts. \<exists>w' ds n a.
           World_updates (map Finite (t0 # take k ts)) w = Some w'
           \<and> cappedDeltas (Finite t0) (map Finite (take k ts)) = map Finite ds
           \<and> (\<forall>d \<in> set ds. 0 \<le> d \<and> d \<le> 1/4)
           \<and> fixedTicks w' = fixedTicks w + n
           \<and> accumulator w' = Finite a \<and> 0 \<le> a \<and> a < s
           \<and> \<bar>sum_list ds - (real n * s + a)\<bar> \<le> real (n + k) * ((s + 1/4) / 2 ^ 53)
           \<and> real n * s \<le> sum_list ds + real (n + k) * ((s + 1/4) / 2 ^ 53)
           \<and> sum_list ds < (real n + 1) * s + real (n + k) * ((s + 1/4) / 2 ^ 53)"
proof (intro allI impI)
  fix k assume k: "k \<le> length ts"
  let ?w0 = "w\<lparr>lastFixedUpdateTime := Finite t0\<rparr>"
  have s0: "0 < s" using roundingError_le(3)[OF assms(1)] .
  have f: "fixedTimeStep ?w0 = Finite s" "lastFixedUpdateTime ?w0 = Finite t0"
    "accumulator ?w0 = Finite 0" using assms(3,5) by simp_all
  have z: "(0::real) \<le> 0" by simp
  from run_conservation[OF assms(1,2) f(1,2) assms(6) take_sorted[OF assms(7)] f(3) z s0]
  obtain w' ds n a where r: "World_updates (map Finite (take k ts)) ?w0 = Some w'"
    "cappedDeltas (Finite t0) (map Finite (take k ts)) = map Finite ds"
    "\<forall>d \<in> set ds. 0 \<le> d \<and> d \<le> 1/4"
    "fixedTicks w' = fixedTicks ?w0 + n" "accumulator w' = Finite a" "0 \<le> a" "a < s"
    "\<bar>0 + sum_list ds - (real n * s + a)\<bar> \<le> real (n + length (take k ts)) * roundingError s"
    by blast
  define E where "E = real (n + k) * ((s + 1/4) / 2 ^ 53)"
  have 1: "World_updates (map Finite (t0 # take k ts)) w = Some w'"
    using r(1) assms(4) by (simp add: update_first)
  have 2: "fixedTicks w' = fixedTicks w + n" using r(4) by simp
  have 3: "\<bar>sum_list ds - (real n * s + a)\<bar> \<le> E"
    using r(8) k by (simp add: min_absorb2 roundingError_def E_def)
  have 4: "real n * s \<le> sum_list ds + E" using 3 r(6) by linarith
  have "sum_list ds < real n * s + s + E" using 3 r(7) by linarith
  then have 5: "sum_list ds < (real n + 1) * s + E" by (simp add: algebra_simps)
  show "\<exists>w' ds n a.
           World_updates (map Finite (t0 # take k ts)) w = Some w'
           \<and> cappedDeltas (Finite t0) (map Finite (take k ts)) = map Finite ds
           \<and> (\<forall>d \<in> set ds. 0 \<le> d \<and> d \<le> 1/4)
           \<and> fixedTicks w' = fixedTicks w + n
           \<and> accumulator w' = Finite a \<and> 0 \<le> a \<and> a < s
           \<and> \<bar>sum_list ds - (real n * s + a)\<bar> \<le> real (n + k) * ((s + 1/4) / 2 ^ 53)
           \<and> real n * s \<le> sum_list ds + real (n + k) * ((s + 1/4) / 2 ^ 53)
           \<and> sum_list ds < (real n + 1) * s + real (n + k) * ((s + 1/4) / 2 ^ 53)"
    apply (rule exI[of _ w'], rule exI[of _ ds], rule exI[of _ n], rule exI[of _ a])
    using 1 2 3 4 5 r(2,3,5,6,7) unfolding E_def by blast
qed

text \<open>
  The bound at the default step: a baseline at 1000 ms and frames at 1016 ms and 1040 ms
  run two ticks.
\<close>

theorem accumulator_conservation_witness:
  "1 / 2 ^ 53 \<le> (4803839602528529 / 2 ^ 58 :: real)
   \<and> (4803839602528529 / 2 ^ 58 :: real) \<le> MAX_VALUE
   \<and> fixedTimeStep (World defaultFixedTimeStep) = Finite (4803839602528529 / 2 ^ 58)
   \<and> lastFixedUpdateTime (World defaultFixedTimeStep) = Finite 0
   \<and> accumulator (World defaultFixedTimeStep) = Finite 0
   \<and> (0::real) < 1000 \<and> sorted [1000, 1016, 1040 :: real]
   \<and> map_option fixedTicks (World_updates (map Finite [1000, 1016, 1040]) (World defaultFixedTimeStep))
       = Some 2
   \<and> map_option accumulator (World_updates (map Finite [1000, 1016, 1040]) (World defaultFixedTimeStep))
       = Some (Finite (480383960252853 / 2 ^ 56))
   \<and> cappedDeltas (Finite 1000) (map Finite [1016, 1040])
       = map Finite [1152921504606847 / 2 ^ 56, 3458764513820541 / 2 ^ 57]
   \<and> \<bar>sum_list [1152921504606847 / 2 ^ 56, 3458764513820541 / 2 ^ 57]
        - (real 2 * (4803839602528529 / 2 ^ 58) + 480383960252853 / 2 ^ 56)\<bar>
       \<le> real (2 + 2) * ((4803839602528529 / 2 ^ 58 + 1/4) / 2 ^ 53)"
  using accumulator_conservation[of "4803839602528529 / 2 ^ 58" "World defaultFixedTimeStep"
          1000 "[1016, 1040]"]
  by (simp add: default_step world_eval fixedUpdateLoop.simps round64_eval MAX_VALUE_def)

text \<open>
  As the claim states it, the bound fails. With the deltas as they are before the cap, a
  frame one second after the baseline runs 15 ticks, and \<open>D = 1\<close> is not below 16 steps.
  And where no delta is capped, the rounding breaks it: five frames of 30 ms run 9 ticks,
  and 9 steps are more than the sum of the five deltas.
\<close>

theorem accumulator_conservation_counterexample:
  "map_option fixedTicks (World_updates (map Finite [1000, 2000]) (World defaultFixedTimeStep))
     = Some 15
   \<and> map valueOf (rawDeltas (Finite 1000) (map Finite [2000])) = [1]
   \<and> \<not> (1 < (real 15 + 1) * valueOf defaultFixedTimeStep)
   \<and> map_option fixedTicks
        (World_updates (map Finite [1000, 1030, 1060, 1090, 1120, 1150]) (World defaultFixedTimeStep))
     = Some 9
   \<and> rawDeltas (Finite 1000) (map Finite [1030, 1060, 1090, 1120, 1150])
     = cappedDeltas (Finite 1000) (map Finite [1030, 1060, 1090, 1120, 1150])
   \<and> \<not> (real 9 * valueOf defaultFixedTimeStep
          \<le> sum_list (map valueOf (rawDeltas (Finite 1000) (map Finite [1030, 1060, 1090, 1120, 1150]))))"
  by (simp add: default_step world_eval fixedUpdateLoop.simps round64_eval)

text \<open>
  Ten frames of 15 ms run 8 ticks and leave the accumulator just below one step, although
  the frame times are 150 ms apart and 9 steps fit into 0.15 s.
\<close>

lemma rounding_drift:
  "map_option fixedTicks
     (World_updates (map Finite [1000, 1015, 1030, 1045, 1060, 1075, 1090, 1105, 1120, 1135, 1150])
        (World defaultFixedTimeStep)) = Some 8
   \<and> map_option accumulator
     (World_updates (map Finite [1000, 1015, 1030, 1045, 1060, 1075, 1090, 1105, 1120, 1135, 1150])
        (World defaultFixedTimeStep)) = Some (Finite (300239975158033 / 2 ^ 54))
   \<and> real 9 * valueOf defaultFixedTimeStep \<le> 15 / 100"
  by (simp add: default_step world_eval fixedUpdateLoop.simps round64_eval)

text \<open>
  C6. \<open>update\<close> recognises its first call by \<open>lastFixedUpdateTime === 0\<close>, the initial
  value of the field. After a first call at time 0 the field is still 0, so the second
  call is taken for the first again: called 100 ms later, it only records the time and
  runs neither a fixed tick nor the variable tick, where every call after the first should
  compute the delta and drive the ticks with it.
\<close>

theorem update_after_time_zero:
  "World_updates [Finite 0, Finite 100] exampleWorld
     = Some (exampleWorld\<lparr>lastFixedUpdateTime := Finite 100\<rparr>)
   \<and> map_option calls (World_updates [Finite 0, Finite 100] exampleWorld) = Some []
   \<and> map_option fixedTicks (World_updates [Finite 0, Finite 100] exampleWorld) = Some 0"
  by (simp add: World_def World_update_def num_eq_def addSystem_def exampleWorld_def
       RaceSystem_init_def RaceSystem_def Let_def)

text \<open>
  The same two frames one millisecond later: the second call runs six fixed ticks and
  the variable tick with the delta of 0.1 s.
\<close>

lemma update_after_time_one:
  "map_option calls (World_updates [Finite 1, Finite 101] exampleWorld)
     = Some (replicate 6 (SystemFixedUpdate ''RaceSystem'' (Finite (4803839602528529 / 2 ^ 58)))
             @ [SystemUpdate ''RaceSystem'' (Finite (3602879701896397 / 2 ^ 55))])
   \<and> map_option fixedTicks (World_updates [Finite 1, Finite 101] exampleWorld) = Some 6"
proof -
  have six: "replicate 6 x = [x, x, x, x, x, x]" for x :: call
    by (simp add: numeral_eq_Suc)
  show ?thesis
    unfolding six
    by (simp add: default_step world_eval addSystem_def exampleWorld_def RaceSystem_init_def
         RaceSystem_def fixedUpdateLoop.simps round64_eval)
qed

subsection \<open>RaceSystem\<close>

lemma mset_insertBy: "mset (insertBy cmp x xs) = add_mset x (mset xs)"
  by (induction xs) simp_all

lemma mset_sortBy: "mset (sortBy cmp xs) = mset xs"
  by (induction xs) (simp_all add: sortBy_def mset_insertBy)

lemma set_insertBy: "set (insertBy cmp x xs) = insert x (set xs)"
  by (induction xs) auto

lemma compareProgress_le:
  "lapCounter a \<noteq> None \<Longrightarrow> lapCounter b \<noteq> None \<Longrightarrow>
     (compareProgress a b \<le> 0) = aheadOrLevel a b"
  by (auto simp: compareProgress_def aheadOrLevel_def split: if_splits)

lemma aheadOrLevel_total:
  "lapCounter a \<noteq> None \<Longrightarrow> lapCounter b \<noteq> None \<Longrightarrow> \<not> aheadOrLevel a b \<Longrightarrow> aheadOrLevel b a"
  by (auto simp: aheadOrLevel_def)

lemma aheadOrLevel_trans:
  "aheadOrLevel a b \<Longrightarrow> aheadOrLevel b c \<Longrightarrow> aheadOrLevel a c"
  by (auto simp: aheadOrLevel_def split: option.splits)

lemma sorted_insertBy:
  assumes "lapCounter x \<noteq> None" and "\<forall>y \<in> set xs. lapCounter y \<noteq> None"
    and "sorted_wrt aheadOrLevel xs"
  shows "sorted_wrt aheadOrLevel (insertBy compareProgress x xs)"
  using assms
proof (induction xs)
  case Nil
  then show ?case by simp
next
  case (Cons y ys)
  show ?case
  proof (cases "compareProgress x y \<le> 0")
    case True
    then have xy: "aheadOrLevel x y" using Cons.prems by (simp add: compareProgress_le)
    then have "\<forall>z \<in> set ys. aheadOrLevel x z"
      using Cons.prems(3) by (auto intro: aheadOrLevel_trans)
    with xy True Cons.prems(3) show ?thesis by simp
  next
    case False
    then have "\<not> aheadOrLevel x y" using Cons.prems by (simp add: compareProgress_le)
    then have yx: "aheadOrLevel y x" using Cons.prems by (simp add: aheadOrLevel_total)
    have "sorted_wrt aheadOrLevel (insertBy compareProgress x ys)"
      using Cons by simp
    with yx False Cons.prems(3) show ?thesis by (auto simp: set_insertBy)
  qed
qed

lemma sorted_sortBy:
  "\<forall>y \<in> set xs. lapCounter y \<noteq> None \<Longrightarrow> sorted_wrt aheadOrLevel (sortBy compareProgress xs)"
proof (induction xs)
  case Nil
  then show ?case by (simp add: sortBy_def)
next
  case (Cons x xs)
  have s: "set (sortBy compareProgress xs) = set xs"
    by (metis mset_sortBy set_mset_mset)
  have "sorted_wrt aheadOrLevel (insertBy compareProgress x (sortBy compareProgress xs))"
    using Cons by (intro sorted_insertBy) (simp_all add: s)
  then show ?case by (simp add: sortBy_def)
qed

lemma activeRacers_lapCounter: "\<forall>y \<in> set (activeRacers ents rs). lapCounter y \<noteq> None"
  by (auto simp: activeRacers_def getEntitiesWithComponents_def)

lemma endRace_finished: "finishedPlayers (fst (endRace ents rs)) = finishedPlayers rs"
  "playerRankings (fst (endRace ents rs)) = playerRankings rs"
  by (simp_all add: endRace_def Let_def)

lemma updateRankings_finished: "finishedPlayers (updateRankings ents rs) = finishedPlayers rs"
  by (simp add: updateRankings_def)

lemma playerFinish_finished:
  "finishedPlayers (fst (playerFinish i ents rs)) =
     (if i \<in> set (finishedPlayers rs) then finishedPlayers rs else finishedPlayers rs @ [i])"
  by (simp add: playerFinish_def Let_def endRace_finished updateRankings_finished)

text \<open>No operation of the race system puts an id into the finished list twice.\<close>

lemma finishedPlayers_distinct:
  assumes "distinct (finishedPlayers rs)"
  shows "distinct (finishedPlayers (fst (RaceSystem_startRace now ents rs)))"
    and "distinct (finishedPlayers (fst (endRace ents rs)))"
    and "distinct (finishedPlayers (updateRankings ents rs))"
    and "distinct (finishedPlayers (fst (playerFinish i ents rs)))"
  using assms
  by (simp_all add: RaceSystem_startRace_def Let_def endRace_finished updateRankings_finished
        playerFinish_finished)

text \<open>
  The ranking that \<open>updateRankings\<close> computes. While the race is active and the system
  holds the world, \<open>updateRankings\<close> leaves the finished list as it is and sets the ranking
  to the finished players in finish order followed by the ids of the remaining racers
  (the entities with a lap counter and a transform that are not in the finished list),
  each once, ordered by lap descending and then checkpoint descending. \<open>playerFinish\<close>
  appends the id to the finished list when it is not in it and changes nothing when it
  is, so a finished list without duplicates stays without duplicates; the ranking it
  recomputes has the same shape.
\<close>

lemma ranking_invariant:
  "(isRaceActive rs \<and> world rs \<longrightarrow>
      (\<exists>active. playerRankings (updateRankings ents rs) = finishedPlayers rs @ map ident active
         \<and> finishedPlayers (updateRankings ents rs) = finishedPlayers rs
         \<and> mset active = mset (activeRacers ents rs)
         \<and> sorted_wrt aheadOrLevel active))
   \<and> finishedPlayers (fst (playerFinish i ents rs)) =
       (if i \<in> set (finishedPlayers rs) then finishedPlayers rs else finishedPlayers rs @ [i])
   \<and> (distinct (finishedPlayers rs) \<longrightarrow> distinct (finishedPlayers (fst (playerFinish i ents rs))))
   \<and> (isRaceActive rs \<and> world rs \<and> i \<notin> set (finishedPlayers rs) \<longrightarrow>
        (\<exists>active. playerRankings (fst (playerFinish i ents rs))
                    = finishedPlayers rs @ [i] @ map ident active
           \<and> mset active = mset (activeRacers ents (rs\<lparr>finishedPlayers := finishedPlayers rs @ [i]\<rparr>))
           \<and> sorted_wrt aheadOrLevel active))"
proof -
  have 1: "\<exists>active. playerRankings (updateRankings ents rs) = finishedPlayers rs @ map ident active
         \<and> finishedPlayers (updateRankings ents rs) = finishedPlayers rs
         \<and> mset active = mset (activeRacers ents rs)
         \<and> sorted_wrt aheadOrLevel active"
    if "isRaceActive rs \<and> world rs"
    using that activeRacers_lapCounter[of ents rs]
    by (intro exI[of _ "sortBy compareProgress (activeRacers ents rs)"])
       (simp add: updateRankings_def mset_sortBy sorted_sortBy)
  have 2: "distinct (finishedPlayers (fst (playerFinish i ents rs)))"
    if "distinct (finishedPlayers rs)"
    using that by (simp add: playerFinish_finished)
  have 3: "\<exists>active. playerRankings (fst (playerFinish i ents rs))
                    = finishedPlayers rs @ [i] @ map ident active
           \<and> mset active = mset (activeRacers ents (rs\<lparr>finishedPlayers := finishedPlayers rs @ [i]\<rparr>))
           \<and> sorted_wrt aheadOrLevel active"
    if a: "isRaceActive rs \<and> world rs \<and> i \<notin> set (finishedPlayers rs)"
  proof -
    let ?rs1 = "rs\<lparr>finishedPlayers := finishedPlayers rs @ [i]\<rparr>"
    have "playerRankings (fst (playerFinish i ents rs))
            = finishedPlayers rs @ [i] @ map ident (sortBy compareProgress (activeRacers ents ?rs1))"
      using a by (simp add: playerFinish_def Let_def endRace_finished updateRankings_def)
    then show ?thesis
      using activeRacers_lapCounter[of ents ?rs1]
      by (intro exI[of _ "sortBy compareProgress (activeRacers ents ?rs1)"])
         (simp add: mset_sortBy sorted_sortBy)
  qed
  from 1 2 3 playerFinish_finished[of i ents rs] show ?thesis by blast
qed

text \<open>
  Four racers, of which \<open>a\<close> has finished: the ranking is \<open>a\<close>, then \<open>d\<close> (lap 2,
  checkpoint 3), \<open>c\<close> (lap 2, checkpoint 1) and \<open>b\<close> (lap 1); when \<open>d\<close> finishes it moves
  behind \<open>a\<close>.
\<close>

lemma ranking_invariant_example:
  "isRaceActive exampleRace \<and> world exampleRace
   \<and> playerRankings (updateRankings
        [exampleRacer ''a'' 4 0, exampleRacer ''b'' 1 2, exampleRacer ''c'' 2 1,
         exampleRacer ''d'' 2 3] exampleRace)
       = [''a'', ''d'', ''c'', ''b'']
   \<and> distinct (finishedPlayers exampleRace) \<and> ''d'' \<notin> set (finishedPlayers exampleRace)
   \<and> finishedPlayers (fst (playerFinish ''d''
        [exampleRacer ''a'' 4 0, exampleRacer ''b'' 1 2, exampleRacer ''c'' 2 1,
         exampleRacer ''d'' 2 3] exampleRace))
       = [''a'', ''d'']
   \<and> playerRankings (fst (playerFinish ''d''
        [exampleRacer ''a'' 4 0, exampleRacer ''b'' 1 2, exampleRacer ''c'' 2 1,
         exampleRacer ''d'' 2 3] exampleRace))
       = [''a'', ''d'', ''c'', ''b'']"
  using ranking_invariant[of exampleRace
          "[exampleRacer ''a'' 4 0, exampleRacer ''b'' 1 2, exampleRacer ''c'' 2 1, exampleRacer ''d'' 2 3]"
          "''d''"]
  by (simp add: exampleRace_def exampleRacer_def updateRankings_def playerFinish_def endRace_def
        activeRacers_def getEntitiesWithComponents_def sortBy_def compareProgress_def
        startRace_def LapCounterComponent_def exampleTransform_def Let_def
        RaceSystem_def System_init_def newCar_def)

text \<open>
  C4. The ranking during an active race is meant to list the finished players in finish
  order and then the remaining racers by lap and checkpoint, both descending. A race
  system that \<open>World.addSystem\<close> has initialised does not hold the world, because its
  \<open>init\<close> does not store it. With a car in the world, \<open>startRace\<close> makes the race active
  but does not reach the car, and \<open>updateRankings\<close> returns at its guard: the car is a
  racer that has not finished, and the ranking stays empty.
\<close>

theorem ranking_without_world:
  "\<not> world addedRaceSystem
   \<and> RaceSystem_startRace 0 [newCar ''b''] addedRaceSystem
       = (addedRaceSystem\<lparr>isRaceActive := True\<rparr>, [newCar ''b''])
   \<and> finishedPlayers (addedRaceSystem\<lparr>isRaceActive := True\<rparr>) = []
   \<and> map ident (activeRacers [newCar ''b''] (addedRaceSystem\<lparr>isRaceActive := True\<rparr>)) = [''b'']
   \<and> playerRankings (updateRankings [newCar ''b''] (addedRaceSystem\<lparr>isRaceActive := True\<rparr>)) = []"
  by (simp add: RaceSystem_startRace_def RaceSystem_init_def RaceSystem_def updateRankings_def
        activeRacers_def getEntitiesWithComponents_def newCar_def Let_def
        addedRaceSystem_def addSystem_def)

text \<open>So the ranking is not the finished players followed by the remaining racers.\<close>

theorem ranking_without_world_witness:
  "playerRankings (updateRankings [newCar ''b''] (fst (RaceSystem_startRace 0 [newCar ''b''] addedRaceSystem)))
     \<noteq> finishedPlayers (fst (RaceSystem_startRace 0 [newCar ''b''] addedRaceSystem))
         @ map ident (activeRacers [newCar ''b'']
             (fst (RaceSystem_startRace 0 [newCar ''b''] addedRaceSystem)))"
  using ranking_without_world by simp

subsection \<open>NetworkSystem\<close>

lemma send_frame:
  "systemSyncInterval (sendTransformUpdate st e ni ns) = systemSyncInterval ns"
  "systemLastSyncTime (sendTransformUpdate st e ni ns) = systemLastSyncTime ns"
  "isConnected (sendTransformUpdate st e ni ns) = isConnected ns"
  "world (sendTransformUpdate st e ni ns) = world ns"
  "systemSyncInterval (sendVehicleUpdate st e ni ns) = systemSyncInterval ns"
  "systemLastSyncTime (sendVehicleUpdate st e ni ns) = systemLastSyncTime ns"
  "isConnected (sendVehicleUpdate st e ni ns) = isConnected ns"
  "world (sendVehicleUpdate st e ni ns) = world ns"
  by (simp_all add: sendTransformUpdate_def sendVehicleUpdate_def split: option.splits)

lemma syncEntity_frame:
  "systemSyncInterval (snd (syncEntity t e ns)) = systemSyncInterval ns"
  "isConnected (snd (syncEntity t e ns)) = isConnected ns"
  "world (snd (syncEntity t e ns)) = world ns"
  by (simp_all add: syncEntity_def Let_def split_beta send_frame split: option.splits)

lemma syncEntities_frame:
  "systemSyncInterval (snd (syncEntities t es ns)) = systemSyncInterval ns
   \<and> isConnected (snd (syncEntities t es ns)) = isConnected ns
   \<and> world (snd (syncEntities t es ns)) = world ns"
  by (induction es arbitrary: ns) (simp_all add: Let_def split_beta syncEntity_frame)

lemma update_None_iff:
  "NetworkSystem_update t ents ns = None \<longleftrightarrow>
     \<not> world ns \<or> \<not> isConnected ns \<or> t - systemLastSyncTime ns < systemSyncInterval ns"
  by (auto simp: NetworkSystem_update_def Let_def split_beta)

lemma update_Some:
  assumes "NetworkSystem_update t ents ns = Some (ns', ents')"
  shows "systemLastSyncTime ns' = t" "systemSyncInterval ns' = systemSyncInterval ns"
    "isConnected ns' = isConnected ns" "systemSyncInterval ns \<le> t - systemLastSyncTime ns"
    "isConnected ns" "world ns" "world ns' = world ns"
  using assms syncEntities_frame[of t ents ns]
  by (auto simp: NetworkSystem_update_def Let_def split_beta split: if_splits)

lemma passTimes_first:
  "syncPassTimes cs ns = t # ts \<Longrightarrow> systemSyncInterval ns \<le> t - systemLastSyncTime ns"
proof (induction cs arbitrary: ns)
  case Nil
  then show ?case by simp
next
  case (Cons c cs)
  obtain u ents where c: "c = (u, ents)" by (cases c)
  show ?case
  proof (cases "NetworkSystem_update u ents ns")
    case None
    with Cons c show ?thesis by simp
  next
    case (Some r)
    obtain ns' ents' where r: "r = (ns', ents')" by (cases r)
    with Some Cons.prems c have "t = u" by simp
    with Some r update_Some(4)[of u ents ns ns' ents'] show ?thesis by simp
  qed
qed

lemma passTimes_successive:
  "successively (\<lambda>a b. systemSyncInterval ns \<le> b - a) (syncPassTimes cs ns)"
proof (induction cs arbitrary: ns)
  case Nil
  then show ?case by simp
next
  case (Cons c cs)
  obtain u ents where c: "c = (u, ents)" by (cases c)
  show ?case
  proof (cases "NetworkSystem_update u ents ns")
    case None
    with Cons c show ?thesis by simp
  next
    case (Some r)
    obtain ns' ents' where r: "r = (ns', ents')" by (cases r)
    note u = update_Some[OF Some[unfolded r]]
    have ih: "successively (\<lambda>a b. systemSyncInterval ns \<le> b - a) (syncPassTimes cs ns')"
      using Cons.IH[of ns'] u(2) by simp
    show ?thesis
    proof (cases "syncPassTimes cs ns'")
      case Nil
      with Some r c show ?thesis by simp
    next
      case (Cons t ts)
      from passTimes_first[OF Cons] u(1,2) have "systemSyncInterval ns \<le> t - u" by simp
      with ih Cons Some r c show ?thesis by simp
    qed
  qed
qed

lemma passTimes_pairwise:
  assumes "0 \<le> systemSyncInterval ns"
  shows "sorted_wrt (\<lambda>a b. systemSyncInterval ns \<le> b - a) (syncPassTimes cs ns)"
proof -
  have "transp (\<lambda>a b :: real. systemSyncInterval ns \<le> b - a)"
    using assms by (auto simp: transp_def)
  then show ?thesis
    using passTimes_successive[of ns cs] by (simp add: successively_iff_sorted_wrt_strong transp_def)
qed

text \<open>
  C9. A transform-update or vehicle-update message whose \<open>senderId\<close> is the local client
  id is dropped: both handlers return with the system, and so every registered entity,
  unchanged.
\<close>

theorem echo_suppression:
  "senderId message = clientId ns \<Longrightarrow>
     handleTransformUpdate message ns = Inr ns \<and> handleVehicleUpdate message ns = Inr ns"
  by (simp add: handleTransformUpdate_def handleVehicleUpdate_def)

theorem echo_suppression_witness:
  "senderId (exampleMessage ''me'') = clientId exampleNetworkSystem
   \<and> handleTransformUpdate (exampleMessage ''me'') exampleNetworkSystem = Inr exampleNetworkSystem
   \<and> handleVehicleUpdate (exampleMessage ''me'') exampleNetworkSystem = Inr exampleNetworkSystem"
  using echo_suppression[of "exampleMessage ''me''" exampleNetworkSystem]
  by (simp add: exampleMessage_def exampleNetworkSystem_def registerNetworkEntity_def
        connect_def System_init_def NetworkSystem_def addSystem_def Let_def exampleCar_def exampleIdentity_def)

text \<open>A message from another sender, by contrast, is written into the entity.\<close>

lemma remote_update_applies:
  "handleTransformUpdate (exampleMessage ''you'') exampleNetworkSystem
     = Inr (exampleNetworkSystem\<lparr>networkEntities :=
              [''n1'' \<mapsto> (exampleCar False False)\<lparr>transform :=
                 Some (exampleTransform\<lparr>position := Vector3 1 2 3\<rparr>)\<rparr>]\<rparr>)"
  by (simp add: handleTransformUpdate_def exampleMessage_def exampleNetworkSystem_def
        registerNetworkEntity_def connect_def System_init_def NetworkSystem_def addSystem_def Let_def
        exampleCar_def exampleIdentity_def exampleTransform_def)

text \<open>
  C10. \<open>NetworkSystem.update\<close> makes a sync pass only when the system is connected and at
  least \<open>syncInterval\<close> has passed on the clock since \<open>lastSyncTime\<close>. A connected system
  that holds the world makes a pass whenever that much time has passed, and every pass
  ends with \<open>lastSyncTime\<close> set to the current time, whether or not anything was sent;
  any call less than \<open>syncInterval\<close> after a pass returns early, whatever the entities
  look like. In a run of calls, two successive passes are at least \<open>syncInterval\<close> apart,
  and so are any two passes when \<open>syncInterval\<close> is not negative.
\<close>

theorem sync_pass_spacing:
  "(NetworkSystem_update now ents ns \<noteq> None \<longrightarrow>
      isConnected ns \<and> systemSyncInterval ns \<le> now - systemLastSyncTime ns)
   \<and> (isConnected ns \<and> world ns \<and> systemSyncInterval ns \<le> now - systemLastSyncTime ns \<longrightarrow>
        (\<exists>ns' ents'. NetworkSystem_update now ents ns = Some (ns', ents')
           \<and> systemLastSyncTime ns' = now
           \<and> (\<forall>later ents2. later - now < systemSyncInterval ns \<longrightarrow>
                  NetworkSystem_update later ents2 ns' = None)))
   \<and> successively (\<lambda>a b. systemSyncInterval ns \<le> b - a) (syncPassTimes cs ns)
   \<and> (0 \<le> systemSyncInterval ns \<longrightarrow>
        sorted_wrt (\<lambda>a b. systemSyncInterval ns \<le> b - a) (syncPassTimes cs ns))"
proof -
  have 1: "isConnected ns \<and> systemSyncInterval ns \<le> now - systemLastSyncTime ns"
    if "NetworkSystem_update now ents ns \<noteq> None"
    using that by (auto simp: update_None_iff)
  have 2: "\<exists>ns' ents'. NetworkSystem_update now ents ns = Some (ns', ents')
           \<and> systemLastSyncTime ns' = now
           \<and> (\<forall>later ents2. later - now < systemSyncInterval ns \<longrightarrow>
                  NetworkSystem_update later ents2 ns' = None)"
    if a: "isConnected ns \<and> world ns \<and> systemSyncInterval ns \<le> now - systemLastSyncTime ns"
  proof -
    from a have "NetworkSystem_update now ents ns \<noteq> None" by (auto simp: update_None_iff)
    then obtain ns' ents' where r: "NetworkSystem_update now ents ns = Some (ns', ents')"
      by auto
    note u = update_Some[OF r]
    have "NetworkSystem_update later ents2 ns' = None" if "later - now < systemSyncInterval ns"
      for later ents2
      using that u(1,2) by (simp add: update_None_iff)
    with r u(1) show ?thesis by blast
  qed
  have 3: "successively (\<lambda>a b. systemSyncInterval ns \<le> b - a) (syncPassTimes cs ns)"
    by (rule passTimes_successive)
  from 1 2 3 passTimes_pairwise[of ns cs] show ?thesis by blast
qed

text \<open>
  A connected system with the default interval of 100 ms: the pass at 150 finds nothing
  dirty and sends nothing; the call at 200 returns early although the car is dirty by
  then; the call at 260 is the next pass and sends the transform and the vehicle state.
\<close>

theorem sync_pass_spacing_witness:
  "isConnected exampleNetworkSystem \<and> world exampleNetworkSystem
   \<and> systemSyncInterval exampleNetworkSystem \<le> 150 - systemLastSyncTime exampleNetworkSystem
   \<and> NetworkSystem_update 150 [exampleCar True False] exampleNetworkSystem
       = Some (exampleNetworkSystem\<lparr>systemLastSyncTime := 150\<rparr>, [exampleCar True False])
   \<and> NetworkSystem_update 200 [exampleCar True True]
        (exampleNetworkSystem\<lparr>systemLastSyncTime := 150\<rparr>) = None
   \<and> NetworkSystem_update 99 [exampleCar True True] exampleNetworkSystem = None
   \<and> syncPassTimes [(150, [exampleCar True False]), (200, [exampleCar True True]),
                     (260, [exampleCar True True])] exampleNetworkSystem = [150, 260]
   \<and> map_option (\<lambda>r. map fst (emitted (fst r)))
        (NetworkSystem_update 260 [exampleCar True True]
           (exampleNetworkSystem\<lparr>systemLastSyncTime := 150\<rparr>)) = Some [''transform'', ''vehicle'']"
  using sync_pass_spacing[of 150 "[exampleCar True False]" exampleNetworkSystem
          "[(150, [exampleCar True False]), (200, [exampleCar True True]), (260, [exampleCar True True])]"]
  by (simp add: NetworkSystem_update_def syncEntity_def needsSync_def sendTransformUpdate_def
        sendVehicleUpdate_def exampleNetworkSystem_def exampleCar_def exampleIdentity_def
        exampleTransform_def Let_def registerNetworkEntity_def connect_def System_init_def
        NetworkSystem_def addSystem_def)

end
